theory Spec2Isabelle
  imports Complex_Main "HOL-Library.Char_ord" "HOL-Library.List_Lexorder" "HOL-Library.Multiset"
begin

section \<open>Service payloads and the Python operations used on them\<close>

text \<open>
  The program works on the dictionaries that the Spotify client returns: parsed JSON.
  A payload is a JSON value. A dictionary is an association list in which the first
  binding of a key is the dictionary's entry for it. Booleans and non-integer numbers
  are left out: no field that the program reads holds one.
\<close>

datatype json =
    JNull
  | JInt int
  | JStr string
  | JList "json list"
  | JDict "(string \<times> json) list"

text \<open>
  Exceptions are values. \<open>SpotifyException st\<close> is the client's exception for a request
  that the service answered with HTTP status \<open>st\<close>; \<open>OtherException\<close> stands for any
  other exception of the client (a network failure, for instance).
\<close>

datatype error =
    AttributeError
  | TypeError
  | ValueError
  | IndexError
  | SpotifyException int
  | OtherException

definition rbind :: "error + 'a \<Rightarrow> ('a \<Rightarrow> error + 'b) \<Rightarrow> error + 'b" where
  "rbind r f = (case r of Inl e \<Rightarrow> Inl e | Inr v \<Rightarrow> f v)"

text \<open>Truth value of an object, as \<open>if x\<close>, \<open>not x\<close>, \<open>x or y\<close> and \<open>while x\<close> test it.\<close>

fun truthy :: "json \<Rightarrow> bool" where
  "truthy JNull = False"
| "truthy (JInt n) = (n \<noteq> 0)"
| "truthy (JStr s) = (s \<noteq> [])"
| "truthy (JList xs) = (xs \<noteq> [])"
| "truthy (JDict kvs) = (kvs \<noteq> [])"

text \<open>
  \<open>x.get(k, d)\<close>: only a dictionary has the method; a key bound to null is present, so
  the default is not used for it. \<open>x.get(k)\<close> is \<open>x.get(k, None)\<close>.
\<close>

fun py_get :: "json \<Rightarrow> string \<Rightarrow> json \<Rightarrow> error + json" where
  "py_get (JDict kvs) k d = Inr (case map_of kvs k of None \<Rightarrow> d | Some v \<Rightarrow> v)"
| "py_get JNull k d = Inl AttributeError"
| "py_get (JInt n) k d = Inl AttributeError"
| "py_get (JStr s) k d = Inl AttributeError"
| "py_get (JList xs) k d = Inl AttributeError"

text \<open>
  Iteration (\<open>for x in v\<close>, a comprehension, \<open>list.extend(v)\<close>): the elements of a list,
  the characters of a string, the keys of a dictionary; None and an integer are not
  iterable.
\<close>

fun py_iter :: "json \<Rightarrow> error + json list" where
  "py_iter (JList xs) = Inr xs"
| "py_iter (JStr s) = Inr (map (\<lambda>c. JStr [c]) s)"
| "py_iter (JDict kvs) = Inr (map JStr (remdups (map fst kvs)))"
| "py_iter JNull = Inl TypeError"
| "py_iter (JInt n) = Inl TypeError"

fun is_str :: "json \<Rightarrow> bool" where
  "is_str (JStr s) = True"
| "is_str _ = False"

fun the_str :: "json \<Rightarrow> string" where
  "the_str (JStr s) = s"
| "the_str _ = []"

fun is_int :: "json \<Rightarrow> bool" where
  "is_int (JInt n) = True"
| "is_int _ = False"

fun the_int :: "json \<Rightarrow> int" where
  "the_int (JInt n) = n"
| "the_int _ = 0"

text \<open>Lists and dictionaries are unhashable: they are neither set elements nor keys.\<close>

fun hashable :: "json \<Rightarrow> bool" where
  "hashable (JList xs) = False"
| "hashable (JDict kvs) = False"
| "hashable _ = True"

text \<open>\<open>sep.join(xs)\<close> on strings.\<close>

fun join_str :: "string \<Rightarrow> string list \<Rightarrow> string" where
  "join_str sep [] = []"
| "join_str sep [x] = x"
| "join_str sep (x # y # ys) = x @ sep @ join_str sep (y # ys)"

text \<open>\<open>sep.join(xs)\<close> raises TypeError on an item that is not a string.\<close>

definition py_join :: "string \<Rightarrow> json list \<Rightarrow> error + string" where
  "py_join sep xs =
     (if list_all is_str xs then Inr (join_str sep (map the_str xs)) else Inl TypeError)"

text \<open>
  \<open>set(xs)\<close>: TypeError on an unhashable element, otherwise the distinct elements (in
  Python in an order of the implementation's choosing; the program sorts them next).
\<close>

definition py_set :: "json list \<Rightarrow> error + json list" where
  "py_set xs = (if list_all hashable xs then Inr (remdups xs) else Inl TypeError)"

text \<open>
  \<open>sorted(s)\<close> of the elements of a set, which are None, integers or strings: strings
  compare lexicographically by code point, integers by value, and a comparison between
  None and anything, or between an integer and a string, raises TypeError. A set of at
  most one element is sorted without any comparison.
\<close>

definition py_sorted :: "json list \<Rightarrow> error + json list" where
  "py_sorted xs =
     (if list_all is_str xs then Inr (map JStr (sort (map the_str xs)))
      else if list_all is_int xs then Inr (map JInt (sort (map the_int xs)))
      else if length xs \<le> 1 then Inr xs
      else Inl TypeError)"

section \<open>Genre Enricher: joining genres onto a track\<close>

text \<open>
  \<open>genres_map\<close> is a dictionary from artist id to the artist's genres.
  The loop of \<open>join_genres\<close> (lines 139 to 141):
  \<^verbatim>\<open>
        for aid in artist_ids_row:
            genres = genres_map.get(aid, [])
            collected.extend(genres)
  \<close>
  A lookup with an unhashable key raises TypeError.
\<close>

fun collect_genres :: "(json \<rightharpoonup> json) \<Rightarrow> json list \<Rightarrow> json list \<Rightarrow> error + json list" where
  "collect_genres genres_map [] collected = Inr collected"
| "collect_genres genres_map (aid # rest) collected =
     (if \<not> hashable aid then Inl TypeError
      else rbind (py_iter (case genres_map aid of None \<Rightarrow> JList [] | Some g \<Rightarrow> g))
             (\<lambda>genres. collect_genres genres_map rest (collected @ genres)))"

text \<open>
  \<open>join_genres\<close> (lines 135 to 146). Its argument is the \<open>artist_ids\<close> cell of a row,
  always a list for a row that the Track Fetcher built, so the \<open>isinstance\<close> test holds.
  The result \<open>None\<close> is Python's None.
\<close>

definition join_genres :: "(json \<rightharpoonup> json) \<Rightarrow> json list \<Rightarrow> error + string option" where
  "join_genres genres_map artist_ids_row =
     (if artist_ids_row = [] then Inr None
      else rbind (collect_genres genres_map artist_ids_row []) (\<lambda>collected.
        if collected = [] then Inr None
        else rbind (py_set collected) (\<lambda>s.
             rbind (py_sorted s) (\<lambda>unique_genres.
             rbind (py_join '', '' unique_genres) (\<lambda>g. Inr (Some g))))))"

text \<open>
  An ArtistGenreIndex as the specification types it, a mapping from artist id to a
  sequence of genre tags, and the dictionary that holds it.
\<close>

definition index_dict :: "(string \<rightharpoonup> string list) \<Rightarrow> (json \<rightharpoonup> json)" where
  "index_dict idx k =
     (case k of JStr a \<Rightarrow> map_option (\<lambda>g. JList (map JStr g)) (idx a) | _ \<Rightarrow> None)"

definition genres_of :: "(string \<rightharpoonup> string list) \<Rightarrow> string \<Rightarrow> string list" where
  "genres_of idx a = (case idx a of None \<Rightarrow> [] | Some g \<Rightarrow> g)"

text \<open>
  The genre string in the specification's words: the union of the genre lists of the
  track's artist ids, de-duplicated, sorted ascending, joined with a comma and a space;
  null for no artist ids or an empty union.
\<close>

definition spec_genre :: "(string \<rightharpoonup> string list) \<Rightarrow> string list \<Rightarrow> string option" where
  "spec_genre idx ids =
     (let u = (\<Union>a \<in> set ids. set (genres_of idx a))
      in if ids = [] \<or> u = {} then None
         else Some (join_str '', '' (sorted_list_of_set u)))"

section \<open>The Spotify client\<close>

text \<open>
  The calls of the client that the program makes. Each returns a payload or raises.
  \<open>sp_next\<close> is \<open>sp.next(results)\<close>, the request for the page that follows \<open>results\<close>.
\<close>

record spotify =
  sp_current_user :: "error + json"
  sp_current_user_playlists :: "nat \<Rightarrow> error + json"
  sp_playlist_tracks :: "json \<Rightarrow> nat \<Rightarrow> error + json"
  sp_next :: "json \<Rightarrow> error + json"
  sp_artists :: "json list \<Rightarrow> error + json"

section \<open>Playlist Lister\<close>

record playlist =
  pl_id :: json
  pl_name :: json
  tracks_total :: json

text \<open>The loop of \<open>fetch_playlists\<close> (lines 47 to 54); \<open>playlists\<close> is the list built so far.\<close>

fun playlists_loop :: "json list \<Rightarrow> playlist list \<Rightarrow> error + playlist list" where
  "playlists_loop [] playlists = Inr playlists"
| "playlists_loop (item # items) playlists =
     rbind (py_get item ''id'' JNull) (\<lambda>i.
     rbind (py_get item ''name'' JNull) (\<lambda>n.
     rbind (py_get item ''tracks'' (JDict [])) (\<lambda>t.
     rbind (py_get t ''total'' (JInt 0)) (\<lambda>total.
       playlists_loop items
         (playlists @ [\<lparr>pl_id = i, pl_name = n, tracks_total = total\<rparr>])))))"

text \<open>\<open>fetch_playlists\<close> (lines 44 to 55): one request, with \<open>limit=50\<close>.\<close>

definition fetch_playlists :: "spotify \<Rightarrow> error + playlist list" where
  "fetch_playlists sp =
     rbind (sp_current_user_playlists sp 50) (\<lambda>results.
     rbind (py_get results ''items'' (JList [])) (\<lambda>its.
     rbind (py_iter its) (\<lambda>items. playlists_loop items [])))"

section \<open>Track Fetcher\<close>

record track =
  track_id :: json
  track_name :: json
  artist :: string
  artist_ids :: "json list"
  album :: json
  duration_ms :: json
  popularity :: json

text \<open>
  The comprehension \<open>[a.get(k) for a in artists if a.get(k)]\<close> of lines 69 and 70.
\<close>

fun comp_get :: "string \<Rightarrow> json list \<Rightarrow> error + json list" where
  "comp_get k [] = Inr []"
| "comp_get k (a # as) =
     rbind (py_get a k JNull) (\<lambda>v.
     rbind (comp_get k as) (\<lambda>vs. Inr (if truthy v then v # vs else vs)))"

text \<open>Lines 68 to 82: the record appended for a track payload.\<close>

definition make_track :: "json \<Rightarrow> error + track" where
  "make_track t =
     rbind (py_get t ''artists'' (JList [])) (\<lambda>a0.
     rbind (py_iter (if truthy a0 then a0 else JList [])) (\<lambda>artists.
     rbind (comp_get ''name'' artists) (\<lambda>artist_names.
     rbind (comp_get ''id'' artists) (\<lambda>ids.
     rbind (py_get t ''id'' JNull) (\<lambda>tid.
     rbind (py_get t ''name'' JNull) (\<lambda>tname.
     rbind (py_join '', '' artist_names) (\<lambda>joined.
     rbind (py_get t ''album'' (JDict [])) (\<lambda>alb.
     rbind (py_get alb ''name'' JNull) (\<lambda>album_name.
     rbind (py_get t ''duration_ms'' JNull) (\<lambda>d.
     rbind (py_get t ''popularity'' JNull) (\<lambda>p.
       Inr \<lparr>track_id = tid, track_name = tname, artist = joined, artist_ids = ids,
            album = album_name, duration_ms = d, popularity = p\<rparr>)))))))))))"

text \<open>The \<open>for\<close> loop over the items of one page (lines 63 to 82).\<close>

fun page_tracks :: "json list \<Rightarrow> track list \<Rightarrow> error + track list" where
  "page_tracks [] tracks = Inr tracks"
| "page_tracks (item # items) tracks =
     rbind (py_get item ''track'' JNull) (\<lambda>t.
       if \<not> truthy t then page_tracks items tracks
       else rbind (make_track t) (\<lambda>r. page_tracks items (tracks @ [r])))"

text \<open>
  The \<open>while results\<close> loop (lines 62 to 87). It ends when a page reports no next page;
  a service that reports a next page for ever keeps it running, which is the value
  \<open>None\<close>.
\<close>

partial_function (option) fetch_loop ::
  "(json \<Rightarrow> error + json) \<Rightarrow> json \<Rightarrow> track list \<Rightarrow> (error + track list) option" where
  "fetch_loop nxt results tracks =
     (if \<not> truthy results then Some (Inr tracks)
      else case rbind (py_get results ''items'' (JList [])) py_iter of
        Inl e \<Rightarrow> Some (Inl e)
      | Inr items \<Rightarrow>
          (case page_tracks items tracks of
             Inl e \<Rightarrow> Some (Inl e)
           | Inr tracks' \<Rightarrow>
               (case py_get results ''next'' JNull of
                  Inl e \<Rightarrow> Some (Inl e)
                | Inr n \<Rightarrow>
                    if truthy n then
                      (case nxt results of
                         Inl e \<Rightarrow> Some (Inl e)
                       | Inr results' \<Rightarrow> fetch_loop nxt results' tracks')
                    else Some (Inr tracks'))))"

text \<open>\<open>fetch_playlist_tracks\<close> (lines 58 to 89).\<close>

definition fetch_playlist_tracks :: "spotify \<Rightarrow> json \<Rightarrow> (error + track list) option" where
  "fetch_playlist_tracks sp playlist_id =
     (case sp_playlist_tracks sp playlist_id 100 of
        Inl e \<Rightarrow> Some (Inl e)
      | Inr results \<Rightarrow> fetch_loop (sp_next sp) results [])"

section \<open>Genre Enricher: the data frame\<close>

text \<open>
  Numbers of the data frame are floating-point numbers in the program; they are
  modelled as exact rationals, and a null cell (None, NaN) as \<open>None\<close>.
  \<open>round_half_even\<close> is the rounding of \<open>Series.round\<close> and of the format
  specifications \<open>.2f\<close> and \<open>.1f\<close>. The model is an idealisation: it rounds the exact
  value, where the program rounds a binary float, so the two can differ when the exact
  value lies at a decimal tie (32700 ms are 0.545 minutes, 0.54 here) and on integers
  that a float does not hold exactly. The properties below that state a number state it
  for values away from a tie.
\<close>

definition round_half_even :: "rat \<Rightarrow> int" where
  "round_half_even x =
     (let f = \<lfloor>x\<rfloor>; d = x - of_int f
      in if d < 1 / 2 then f
         else if 1 / 2 < d then f + 1
         else if even f then f else f + 1)"

definition round2 :: "rat \<Rightarrow> rat" where
  "round2 x = of_int (round_half_even (x * 100)) / 100"

text \<open>
  A cell of \<open>(df["duration_ms"] / 60000).round(2)\<close> (line 96): null stays null, and the
  division raises TypeError on a string, a list or a dictionary.
\<close>

fun duration_min_of :: "json \<Rightarrow> error + rat option" where
  "duration_min_of JNull = Inr None"
| "duration_min_of (JInt n) = Inr (Some (round2 (of_int n / 60000)))"
| "duration_min_of (JStr s) = Inl TypeError"
| "duration_min_of (JList xs) = Inl TypeError"
| "duration_min_of (JDict kvs) = Inl TypeError"

fun duration_column :: "track list \<Rightarrow> error + rat option list" where
  "duration_column [] = Inr []"
| "duration_column (t # ts) =
     rbind (duration_min_of (duration_ms t)) (\<lambda>d.
     rbind (duration_column ts) (\<lambda>ds. Inr (d # ds)))"

text \<open>
  A row of the returned frame. \<open>row_artist_ids\<close> is \<open>None\<close> once the column has been
  dropped (line 151); the two early returns (lines 102 and 109) keep it.
\<close>

record row =
  row_id :: json
  row_name :: json
  row_artist :: string
  row_artist_ids :: "json list option"
  row_album :: json
  row_duration_ms :: json
  row_popularity :: json
  duration_min :: "rat option"
  genre :: "string option"

definition make_row :: "bool \<Rightarrow> track \<Rightarrow> rat option \<Rightarrow> string option \<Rightarrow> row" where
  "make_row keep_ids t d g =
     \<lparr>row_id = track_id t, row_name = track_name t, row_artist = artist t,
      row_artist_ids = (if keep_ids then Some (artist_ids t) else None),
      row_album = album t, row_duration_ms = duration_ms t,
      row_popularity = popularity t, duration_min = d, genre = g\<rparr>"

text \<open>
  The set comprehension of line 105, \<open>{aid for sub in ... for aid in sub if aid}\<close>, run
  over the ids of all tracks in order: \<open>seen\<close> holds the distinct ids added so far. Adding
  an unhashable id raises TypeError.
\<close>

fun collect_ids :: "json list \<Rightarrow> json list \<Rightarrow> error + json list" where
  "collect_ids [] seen = Inr seen"
| "collect_ids (aid # rest) seen =
     (if \<not> truthy aid then collect_ids rest seen
      else if \<not> hashable aid then Inl TypeError
      else collect_ids rest (if aid \<in> set seen then seen else seen @ [aid]))"

definition all_artist_ids :: "track list \<Rightarrow> error + json list" where
  "all_artist_ids tracks = collect_ids (concat (map artist_ids tracks)) []"

text \<open>The batches of lines 115 and 116: consecutive slices of \<open>n\<close> ids.\<close>

function batches :: "nat \<Rightarrow> 'a list \<Rightarrow> 'a list list" where
  "batches n xs = (if n = 0 \<or> xs = [] then [] else take n xs # batches n (drop n xs))"
  by pat_completeness auto
termination
  by (relation "measure (\<lambda>(n, xs). length xs)") auto

declare batches.simps [simp del]

text \<open>The loop over the artists of one response (lines 127 to 133).\<close>

fun artist_loop :: "json list \<Rightarrow> (json \<rightharpoonup> json) \<Rightarrow> error + (json \<rightharpoonup> json)" where
  "artist_loop [] genres_map = Inr genres_map"
| "artist_loop (a # rest) genres_map =
     (if \<not> truthy a then artist_loop rest genres_map
      else rbind (py_get a ''id'' JNull) (\<lambda>aid.
        if \<not> truthy aid then artist_loop rest genres_map
        else rbind (py_get a ''genres'' (JList [])) (\<lambda>g.
          if \<not> hashable aid then Inl TypeError
          else artist_loop rest (genres_map(aid \<mapsto> (if truthy g then g else JList []))))))"

text \<open>
  The state of the batch loop: the genres found so far, the HTTP status of each warning
  shown, and the batches requested from the service.
\<close>

record lookup_state =
  genres_map :: "json \<rightharpoonup> json"
  warnings :: "int list"
  calls :: "json list list"

text \<open>
  The batch loop (lines 115 to 133). Only \<open>SpotifyException\<close> is caught: the batch is
  skipped with a warning. Any other exception leaves the function.
\<close>

fun batch_loop ::
  "(json list \<Rightarrow> error + json) \<Rightarrow> json list list \<Rightarrow> lookup_state \<Rightarrow> error + lookup_state" where
  "batch_loop lookup [] st = Inr st"
| "batch_loop lookup (batch # rest) st =
     (let st1 = st\<lparr>calls := calls st @ [batch]\<rparr> in
      case lookup batch of
        Inl e \<Rightarrow>
          (case e of
             SpotifyException status \<Rightarrow>
               batch_loop lookup rest (st1\<lparr>warnings := warnings st1 @ [status]\<rparr>)
           | _ \<Rightarrow> Inl e)
      | Inr response \<Rightarrow>
          rbind (py_get response ''artists'' (JList [])) (\<lambda>arts.
          rbind (py_iter arts) (\<lambda>artists.
          rbind (artist_loop artists (genres_map st1)) (\<lambda>gm.
            batch_loop lookup rest (st1\<lparr>genres_map := gm\<rparr>)))))"

fun genre_column :: "(json \<rightharpoonup> json) \<Rightarrow> track list \<Rightarrow> error + string option list" where
  "genre_column gm [] = Inr []"
| "genre_column gm (t # ts) =
     rbind (join_genres gm (artist_ids t)) (\<lambda>g.
     rbind (genre_column gm ts) (\<lambda>gs. Inr (g # gs)))"

record enriched =
  rows :: "row list"
  shown_warnings :: "int list"
  lookups :: "json list list"

text \<open>
  \<open>add_genres_if_available\<close> (lines 92 to 153). \<open>set_order\<close> is the order in which
  \<open>list(all_artist_ids)\<close> enumerates the set, given as a function of the distinct ids in
  the order of their insertion; Python leaves it to the implementation. A frame built
  from no track has no \<open>artist_ids\<close> column (line 100).
\<close>

definition add_genres_if_available ::
  "(json list \<Rightarrow> json list) \<Rightarrow> (json list \<Rightarrow> error + json) \<Rightarrow> track list \<Rightarrow> error + enriched" where
  "add_genres_if_available set_order lookup tracks =
     rbind (duration_column tracks) (\<lambda>ds.
       if tracks = [] then Inr \<lparr>rows = [], shown_warnings = [], lookups = []\<rparr>
       else rbind (all_artist_ids tracks) (\<lambda>ids.
         if ids = [] then
           Inr \<lparr>rows = map2 (\<lambda>t d. make_row True t d None) tracks ds,
                shown_warnings = [], lookups = []\<rparr>
         else
           rbind (batch_loop lookup (batches 50 (set_order ids))
                    \<lparr>genres_map = Map.empty, warnings = [], calls = []\<rparr>) (\<lambda>st.
           rbind (genre_column (genres_map st) tracks) (\<lambda>gs.
             Inr \<lparr>rows = map2 (\<lambda>t (d, g). make_row False t d g) tracks (zip ds gs),
                  shown_warnings = warnings st, lookups = calls st\<rparr>))))"

section \<open>Aggregator and the interactive session\<close>

text \<open>Decimal digits of a number, for \<open>str\<close> and the format specifications.\<close>

function show_nat :: "nat \<Rightarrow> string" where
  "show_nat n =
     (if n < 10 then [''0123456789'' ! n]
      else show_nat (n div 10) @ [''0123456789'' ! (n mod 10)])"
  by pat_completeness auto
termination
  by (relation "measure (\<lambda>n. n)") auto

declare show_nat.simps [simp del]

definition show_int :: "int \<Rightarrow> string" where
  "show_int i = (if i < 0 then ''-'' @ show_nat (nat (- i)) else show_nat (nat i))"

text \<open>
  \<open>f"{x:.kf}"\<close>: \<open>x\<close> with \<open>k\<close> digits after the point, for \<open>k\<close> at least 1, rounded from
  the exact value as above.
\<close>

definition fmt_fixed :: "nat \<Rightarrow> rat \<Rightarrow> string" where
  "fmt_fixed k x =
     (let q = nat (round_half_even (\<bar>x\<bar> * 10 ^ k));
          fs = show_nat (q mod 10 ^ k)
      in (if x < 0 then ''-'' else []) @ show_nat (q div 10 ^ k) @ ''.''
           @ replicate (k - length fs) (CHR ''0'') @ fs)"

text \<open>
  \<open>Series.sum()\<close> with the defaults of pandas (\<open>skipna=True\<close>, \<open>min_count=0\<close>): null cells
  are skipped, and the sum of no cell is 0. The result is never null.
\<close>

definition series_sum :: "rat option list \<Rightarrow> rat option" where
  "series_sum xs = Some (sum_list (List.map_filter (\<lambda>x. x) xs))"

text \<open>\<open>Series.dropna().mean()\<close>: the mean of the cells that are not null, null if there is none.\<close>

definition series_mean :: "rat option list \<Rightarrow> rat option" where
  "series_mean xs =
     (let vs = List.map_filter (\<lambda>x. x) xs
      in if vs = [] then None else Some (sum_list vs / of_nat (length vs)))"

text \<open>The metric of lines 205 to 208, from \<open>total_minutes\<close>.\<close>

definition total_length_metric :: "rat option \<Rightarrow> string" where
  "total_length_metric total_minutes =
     (case total_minutes of Some m \<Rightarrow> fmt_fixed 2 (m / 60) | None \<Rightarrow> ''N/A'')"

definition avg_popularity_metric :: "rat option \<Rightarrow> string" where
  "avg_popularity_metric avg_popularity =
     (case avg_popularity of Some a \<Rightarrow> fmt_fixed 1 a | None \<Rightarrow> ''N/A'')"

text \<open>A cell of the popularity column as a number; the mean raises TypeError on others.\<close>

fun popularity_of :: "json \<Rightarrow> error + rat option" where
  "popularity_of JNull = Inr None"
| "popularity_of (JInt n) = Inr (Some (of_int n))"
| "popularity_of (JStr s) = Inl TypeError"
| "popularity_of (JList xs) = Inl TypeError"
| "popularity_of (JDict kvs) = Inl TypeError"

fun popularity_column :: "row list \<Rightarrow> error + rat option list" where
  "popularity_column [] = Inr []"
| "popularity_column (r # rs) =
     rbind (popularity_of (row_popularity r)) (\<lambda>p.
     rbind (popularity_column rs) (\<lambda>ps. Inr (p # ps)))"

record report =
  metric_tracks :: string
  metric_total_length :: string
  metric_avg_popularity :: string
  track_details :: "row list"

text \<open>The playlist summary and the table (lines 195 to 227). The charts are left out.\<close>

definition summarise :: "row list \<Rightarrow> error + report" where
  "summarise df =
     (let total_tracks = length df;
          total_minutes = series_sum (map duration_min df)
      in rbind (popularity_column df) (\<lambda>ps.
           Inr \<lparr>metric_tracks = show_nat total_tracks,
                metric_total_length = total_length_metric total_minutes,
                metric_avg_popularity = avg_popularity_metric (series_mean ps),
                track_details = df\<rparr>))"

text \<open>
  \<open>str\<close> of a value inside an f-string. \<open>repr\<close> gives the text that Python prints for a
  list or a dictionary.
\<close>

fun py_str :: "(json \<Rightarrow> string) \<Rightarrow> json \<Rightarrow> string" where
  "py_str repr JNull = ''None''"
| "py_str repr (JInt n) = show_int n"
| "py_str repr (JStr s) = s"
| "py_str repr (JList xs) = repr (JList xs)"
| "py_str repr (JDict kvs) = repr (JDict kvs)"

text \<open>Line 179: the label of a playlist.\<close>

definition label :: "(json \<Rightarrow> string) \<Rightarrow> playlist \<Rightarrow> string" where
  "label repr p =
     py_str repr (pl_name p) @ '' ('' @ py_str repr (tracks_total p) @ '' tracks)''"

text \<open>\<open>xs.index(x)\<close>: the first position of \<open>x\<close>, ValueError if there is none.\<close>

fun index_of :: "'a list \<Rightarrow> 'a \<Rightarrow> error + nat" where
  "index_of [] y = Inl ValueError"
| "index_of (x # xs) y =
     (if x = y then Inr 0 else rbind (index_of xs y) (\<lambda>i. Inr (Suc i)))"

definition py_nth :: "'a list \<Rightarrow> nat \<Rightarrow> error + 'a" where
  "py_nth xs i = (if i < length xs then Inr (xs ! i) else Inl IndexError)"

text \<open>
  Lines 179 to 182. \<open>selectbox\<close> is the widget: it receives the labels and returns the
  one that the user chose.
\<close>

definition select_playlist ::
  "(json \<Rightarrow> string) \<Rightarrow> (string list \<Rightarrow> string) \<Rightarrow> playlist list \<Rightarrow> error + playlist" where
  "select_playlist repr selectbox playlists =
     (let labels = map (label repr) playlists;
          choice = selectbox labels
      in rbind (index_of labels choice) (\<lambda>i. py_nth playlists i))"

text \<open>
  How a run of \<open>main\<close> ends: with \<open>st.stop()\<close> after a message, with the report rendered,
  or with an exception that nothing in \<open>main\<close> catches.
\<close>

datatype outcome =
    NoClient
  | ProfileError
  | NoPlaylists
  | NoTracks
  | Report report
  | Uncaught error

text \<open>Lines 187 to 227: the analysis of the selected playlist.\<close>

definition analyse ::
  "spotify \<Rightarrow> (json list \<Rightarrow> json list) \<Rightarrow> json \<Rightarrow> outcome option" where
  "analyse sp_user set_order playlist_id =
     (case fetch_playlist_tracks sp_user playlist_id of
        None \<Rightarrow> None
      | Some (Inl e) \<Rightarrow> Some (Uncaught e)
      | Some (Inr tracks) \<Rightarrow>
          if tracks = [] then Some NoTracks
          else (case add_genres_if_available set_order (sp_artists sp_user) tracks of
                  Inl e \<Rightarrow> Some (Uncaught e)
                | Inr df \<Rightarrow>
                    (case summarise (rows df) of
                       Inl e \<Rightarrow> Some (Uncaught e)
                     | Inr rep \<Rightarrow> Some (Report rep))))"

text \<open>
  \<open>main\<close> (lines 156 to 227). \<open>client\<close> is the result of \<open>get_spotify_client\<close>. The only
  \<open>try\<close> of \<open>main\<close> is around the profile request (lines 166 to 172).
\<close>

definition main ::
  "spotify option \<Rightarrow> (json \<Rightarrow> string) \<Rightarrow> (string list \<Rightarrow> string) \<Rightarrow> (json list \<Rightarrow> json list)
     \<Rightarrow> outcome option" where
  "main client repr selectbox set_order =
     (case client of
        None \<Rightarrow> Some NoClient
      | Some sp_user \<Rightarrow>
          (case rbind (sp_current_user sp_user)
                  (\<lambda>user. py_get user ''display_name'' (JStr ''Unknown user'')) of
             Inl e \<Rightarrow> Some ProfileError
           | Inr display_name \<Rightarrow>
               (case fetch_playlists sp_user of
                  Inl e \<Rightarrow> Some (Uncaught e)
                | Inr playlists \<Rightarrow>
                    if playlists = [] then Some NoPlaylists
                    else (case select_playlist repr selectbox playlists of
                            Inl e \<Rightarrow> Some (Uncaught e)
                          | Inr selected \<Rightarrow> analyse sp_user set_order (pl_id selected)))))"

section \<open>Well-formed payloads\<close>

text \<open>
  Predicates and projections used to state the properties: the value that a dictionary
  binds to a key (null if there is none), and the shapes of payload on which the
  fetchers do not raise.
\<close>

fun is_dict :: "json \<Rightarrow> bool" where
  "is_dict (JDict kvs) = True"
| "is_dict _ = False"

fun field :: "json \<Rightarrow> string \<Rightarrow> json" where
  "field (JDict kvs) k = (case map_of kvs k of None \<Rightarrow> JNull | Some v \<Rightarrow> v)"
| "field _ k = JNull"

fun has_key :: "json \<Rightarrow> string \<Rightarrow> bool" where
  "has_key (JDict kvs) k = (map_of kvs k \<noteq> None)"
| "has_key _ k = False"

text \<open>A playlist item: a dictionary whose \<open>tracks\<close> entry, if there is one, is a dictionary.\<close>

definition lister_item_ok :: "json \<Rightarrow> bool" where
  "lister_item_ok item = (is_dict item \<and> (has_key item ''tracks'' \<longrightarrow> is_dict (field item ''tracks'')))"

text \<open>The summary of an item, with null for an absent id or name and 0 for an absent total.\<close>

definition summary_of :: "json \<Rightarrow> playlist" where
  "summary_of item =
     \<lparr>pl_id = field item ''id'', pl_name = field item ''name'',
      tracks_total = (if has_key item ''tracks'' \<and> has_key (field item ''tracks'') ''total''
                      then field (field item ''tracks'') ''total'' else JInt 0)\<rparr>"

text \<open>An artist of a track: a dictionary whose name is a string, null or absent.\<close>

definition artist_ok :: "json \<Rightarrow> bool" where
  "artist_ok a = (is_dict a \<and> (truthy (field a ''name'') \<longrightarrow> is_str (field a ''name'')))"

text \<open>The artists that the Track Fetcher iterates for a track payload.\<close>

definition artists_of :: "json \<Rightarrow> json list" where
  "artists_of t = (case field t ''artists'' of JList as \<Rightarrow> as | _ \<Rightarrow> [])"

text \<open>
  A track payload: a dictionary whose \<open>artists\<close> entry is absent, falsy or a list of
  artists, and whose \<open>album\<close> entry, if there is one, is a dictionary.
\<close>

definition track_ok :: "json \<Rightarrow> bool" where
  "track_ok t =
     (is_dict t
      \<and> (truthy (field t ''artists'') \<longrightarrow> (\<exists>as. field t ''artists'' = JList as))
      \<and> list_all artist_ok (artists_of t)
      \<and> (has_key t ''album'' \<longrightarrow> is_dict (field t ''album'')))"

text \<open>
  A name or an id as the service issues it: a string that is not empty, or null (an
  absent entry reads as null). An artist whose name and id are so.
\<close>

definition issued :: "json \<Rightarrow> bool" where
  "issued v = (v = JNull \<or> (is_str v \<and> truthy v))"

definition service_artist :: "json \<Rightarrow> bool" where
  "service_artist a = (issued (field a ''name'') \<and> issued (field a ''id''))"

section \<open>What the batch loop computes\<close>

text \<open>
  The genres that a response entry stores for its artist (line 133), the artists of a
  response, and the shape of response on which the loop over its artists does not raise:
  every entry is falsy or a dictionary whose id, if truthy, is hashable.
\<close>

definition genres_value :: "json \<Rightarrow> json" where
  "genres_value a = (if truthy (field a ''genres'') then field a ''genres'' else JList [])"

definition resp_artists :: "json \<Rightarrow> json list" where
  "resp_artists r = (case field r ''artists'' of JList as \<Rightarrow> as | _ \<Rightarrow> [])"

fun is_list :: "json \<Rightarrow> bool" where
  "is_list (JList xs) = True"
| "is_list _ = False"

definition entry_ok :: "json \<Rightarrow> bool" where
  "entry_ok a = (truthy a \<longrightarrow> is_dict a \<and> (truthy (field a ''id'') \<longrightarrow> hashable (field a ''id'')))"

definition resp_ok :: "json \<Rightarrow> bool" where
  "resp_ok r =
     (is_dict r \<and> (has_key r ''artists'' \<longrightarrow> is_list (field r ''artists''))
      \<and> list_all entry_ok (resp_artists r))"

text \<open>The entries that the artists of one response add to the index, later ones winning.\<close>

fun artist_index :: "json list \<Rightarrow> (json \<rightharpoonup> json)" where
  "artist_index [] = Map.empty"
| "artist_index (a # as) =
     (if truthy a \<and> truthy (field a ''id'') then [field a ''id'' \<mapsto> genres_value a] else Map.empty)
       ++ artist_index as"

text \<open>The entries that a run over the batches adds, and the statuses of its warnings.\<close>

definition own_index :: "(json list \<Rightarrow> error + json) \<Rightarrow> json list \<Rightarrow> (json \<rightharpoonup> json)" where
  "own_index lookup b =
     (case lookup b of Inr r \<Rightarrow> artist_index (resp_artists r) | Inl e \<Rightarrow> Map.empty)"

fun batch_index :: "(json list \<Rightarrow> error + json) \<Rightarrow> json list list \<Rightarrow> (json \<rightharpoonup> json)" where
  "batch_index lookup [] = Map.empty"
| "batch_index lookup (b # bs) = own_index lookup b ++ batch_index lookup bs"

fun rejected :: "error + json \<Rightarrow> int list" where
  "rejected (Inl (SpotifyException status)) = [status]"
| "rejected _ = []"

definition batch_warnings :: "(json list \<Rightarrow> error + json) \<Rightarrow> json list list \<Rightarrow> int list" where
  "batch_warnings lookup bs = concat (map (\<lambda>b. rejected (lookup b)) bs)"

text \<open>
  A service that answers a batch or rejects it with an HTTP error, the only failure that
  the batch loop catches.
\<close>

definition answers_or_rejects :: "(json list \<Rightarrow> error + json) \<Rightarrow> json list \<Rightarrow> bool" where
  "answers_or_rejects lookup b =
     (case lookup b of
        Inr r \<Rightarrow> resp_ok r
      | Inl e \<Rightarrow> (case e of SpotifyException status \<Rightarrow> True | _ \<Rightarrow> False))"

text \<open>
  A service that answers a batch with artists among the requested ids, each with a list
  of genre tags (or none); and a track record that the data frame accepts: a duration
  that is an integer or null, and hashable artist ids.
\<close>

definition str_list :: "json \<Rightarrow> bool" where
  "str_list g = (case g of JList xs \<Rightarrow> list_all is_str xs | _ \<Rightarrow> False)"

definition entry_within :: "json list \<Rightarrow> json \<Rightarrow> bool" where
  "entry_within b a =
     (truthy a \<and> truthy (field a ''id'') \<longrightarrow> field a ''id'' \<in> set b \<and> str_list (genres_value a))"

definition answers :: "(json list \<Rightarrow> error + json) \<Rightarrow> json list \<Rightarrow> bool" where
  "answers lookup b =
     (case lookup b of
        Inr r \<Rightarrow> resp_ok r \<and> list_all (entry_within b) (resp_artists r)
      | Inl e \<Rightarrow> False)"

definition track_rec_ok :: "track \<Rightarrow> bool" where
  "track_rec_ok t =
     ((duration_ms t = JNull \<or> is_int (duration_ms t)) \<and> list_all hashable (artist_ids t))"

section \<open>A playlist with more artists than one batch holds\<close>

text \<open>
  Fifty-one tracks, each by an artist of its own, so that the artist ids fill one batch
  of fifty and leave one id for a second batch. \<open>answering\<close> is a service that answers
  every batch with an entry for each requested artist, whose only genre tag is named
  after the artist. \<open>rejecting_last\<close> answers in the same way, except that it rejects with
  HTTP status 400 every batch that holds the id \<open>a51\<close>.
\<close>

definition many_ids :: "json list" where
  "many_ids = map JStr
    [''a01'', ''a02'', ''a03'', ''a04'', ''a05'', ''a06'', ''a07'', ''a08'',
     ''a09'', ''a10'', ''a11'', ''a12'', ''a13'', ''a14'', ''a15'', ''a16'',
     ''a17'', ''a18'', ''a19'', ''a20'', ''a21'', ''a22'', ''a23'', ''a24'',
     ''a25'', ''a26'', ''a27'', ''a28'', ''a29'', ''a30'', ''a31'', ''a32'',
     ''a33'', ''a34'', ''a35'', ''a36'', ''a37'', ''a38'', ''a39'', ''a40'',
     ''a41'', ''a42'', ''a43'', ''a44'', ''a45'', ''a46'', ''a47'', ''a48'',
     ''a49'', ''a50'', ''a51'']"

definition track_by :: "json \<Rightarrow> track" where
  "track_by a =
     \<lparr>track_id = JNull, track_name = JNull, artist = [], artist_ids = [a], album = JNull,
      duration_ms = JNull, popularity = JNull\<rparr>"

definition many_tracks :: "track list" where
  "many_tracks = map track_by many_ids"

definition artist_entry :: "json \<Rightarrow> json" where
  "artist_entry a = JDict [(''id'', a), (''genres'', JList [JStr (''genre '' @ the_str a)])]"

definition answering :: "json list \<Rightarrow> error + json" where
  "answering b = Inr (JDict [(''artists'', JList (map artist_entry b))])"

definition rejecting_last :: "json list \<Rightarrow> error + json" where
  "rejecting_last b =
     (if JStr ''a51'' \<in> set b then Inl (SpotifyException 400) else answering b)"

text \<open>What a run of the Genre Enricher gave: the genre of a row, the warnings, the batches.\<close>

definition genre_at :: "nat \<Rightarrow> error + enriched \<Rightarrow> error + string option" where
  "genre_at i r = map_sum id (\<lambda>df. genre (rows df ! i)) r"


definition batches_of :: "error + enriched \<Rightarrow> error + json list list" where
  "batches_of r = map_sum id lookups r"

section \<open>The pages of a playlist\<close>

text \<open>
  The items of a page of playlist entries, and the shapes that the service gives them.
  The track payload of an entry is null (or absent) for a track that was removed;
  otherwise it is a track payload with at least one key, whose duration is an integer or
  null and whose artists are as the service issues them. A page is a dictionary with at
  least one key whose \<open>items\<close> entry, if there is one, is a list of entries.
\<close>

definition page_items :: "json \<Rightarrow> json list" where
  "page_items p = (case field p ''items'' of JList xs \<Rightarrow> xs | _ \<Rightarrow> [])"

definition entry_track_ok :: "json \<Rightarrow> bool" where
  "entry_track_ok t =
     (track_ok t \<and> truthy t \<and> list_all service_artist (artists_of t)
      \<and> (field t ''duration_ms'' = JNull \<or> is_int (field t ''duration_ms'')))"

definition item_ok :: "json \<Rightarrow> bool" where
  "item_ok e = (is_dict e \<and> (field e ''track'' = JNull \<or> entry_track_ok (field e ''track'')))"

definition page_ok :: "json \<Rightarrow> bool" where
  "page_ok p =
     (is_dict p \<and> truthy p \<and> (has_key p ''items'' \<longrightarrow> is_list (field p ''items''))
      \<and> list_all item_ok (page_items p))"

text \<open>
  The pages of a playlist, from the first to the last: every page but the last reports a
  next page, which \<open>sp.next\<close> returns, and the last page reports none.
\<close>

fun page_chain :: "(json \<Rightarrow> error + json) \<Rightarrow> json list \<Rightarrow> bool" where
  "page_chain nxt [] = False"
| "page_chain nxt [p] = (\<not> truthy (field p ''next''))"
| "page_chain nxt (p # q # ps) =
     (truthy (field p ''next'') \<and> nxt p = Inr q \<and> page_chain nxt (q # ps))"

text \<open>
  The track payloads of the entries of the pages in the order of the playlist, the null
  ones left out; and a row that carries the fields of a track record.
\<close>

definition playlist_tracks :: "json list \<Rightarrow> json list" where
  "playlist_tracks ps =
     filter (\<lambda>t. t \<noteq> JNull) (map (\<lambda>e. field e ''track'') (concat (map page_items ps)))"

definition same_record :: "row \<Rightarrow> track \<Rightarrow> bool" where
  "same_record r t =
     (row_id r = track_id t \<and> row_name r = track_name t \<and> row_artist r = artist t
      \<and> row_album r = album t \<and> row_duration_ms r = duration_ms t
      \<and> row_popularity r = popularity t)"

text \<open>
  A playlist of three entries on two pages, the second entry a removed track, with the
  artist service \<open>answering\<close>.
\<close>

definition first_page :: json where
  "first_page =
     JDict [(''items'', JList
              [JDict [(''track'', JDict [(''id'', JStr ''t1''), (''name'', JStr ''One''),
                        (''artists'', JList [JDict [(''id'', JStr ''a01''), (''name'', JStr ''A'')]]),
                        (''duration_ms'', JInt 180000)])],
               JDict [(''track'', JNull)]]),
            (''next'', JStr ''page 2'')]"

definition second_page :: json where
  "second_page =
     JDict [(''items'', JList
              [JDict [(''track'', JDict [(''id'', JStr ''t2''), (''name'', JStr ''Two''),
                        (''artists'', JList [JDict [(''id'', JStr ''a02''), (''name'', JStr ''B'')]])])]]),
            (''next'', JNull)]"

definition two_pages :: spotify where
  "two_pages =
     \<lparr>sp_current_user = Inl OtherException,
      sp_current_user_playlists = (\<lambda>n. Inl OtherException),
      sp_playlist_tracks = (\<lambda>p n. Inr first_page),
      sp_next = (\<lambda>p. if p = first_page then Inr second_page else Inl OtherException),
      sp_artists = answering\<rparr>"

section \<open>Properties of the genre join\<close>

lemma rbind_Inr [simp]: "rbind (Inr v) f = f v"
  by (simp add: rbind_def)

lemma rbind_Inl [simp]: "rbind (Inl e) f = Inl e"
  by (simp add: rbind_def)

lemma list_all_is_str_map [simp]: "list_all is_str (map JStr xs)"
  by (induction xs) auto

lemma list_all_hashable_map [simp]: "list_all hashable (map JStr xs)"
  by (induction xs) auto

lemma the_str_map [simp]: "map the_str (map JStr xs) = xs"
  by (induction xs) auto

lemma the_str_comp_JStr [simp]: "the_str \<circ> JStr = id"
  by (rule ext) simp

lemma remdups_map_JStr: "remdups (map JStr xs) = map JStr (remdups xs)"
  by (induction xs) auto

lemma collect_genres_index:
  "collect_genres (index_dict idx) (map JStr ids) (map JStr acc) =
     Inr (map JStr (acc @ concat (map (genres_of idx) ids)))"
proof (induction ids arbitrary: acc)
  case Nil
  show ?case by simp
next
  case (Cons a ids)
  have "py_iter (case index_dict idx (JStr a) of None \<Rightarrow> JList [] | Some g \<Rightarrow> g)
          = Inr (map JStr (genres_of idx a))"
    by (simp add: index_dict_def genres_of_def split: option.splits)
  then show ?case
    using Cons.IH [of "acc @ genres_of idx a"] by simp
qed

lemma genre_pipeline:
  "rbind (py_set (map JStr xs)) (\<lambda>s.
     rbind (py_sorted s) (\<lambda>unique_genres.
     rbind (py_join '', '' unique_genres) (\<lambda>g. Inr (Some g))))
   = Inr (Some (join_str '', '' (sorted_list_of_set (set xs))))"
  by (simp add: py_set_def py_sorted_def py_join_def remdups_map_JStr
      sorted_list_of_set_sort_remdups)

lemma join_genres_index:
  "join_genres (index_dict idx) (map JStr ids) = Inr (spec_genre idx ids)"
proof -
  let ?c = "concat (map (genres_of idx) ids)"
  have c: "collect_genres (index_dict idx) (map JStr ids) [] = Inr (map JStr ?c)"
    using collect_genres_index [of idx ids "[]"] by simp
  have u: "set ?c = (\<Union>a \<in> set ids. set (genres_of idx a))"
    by auto
  show ?thesis
  proof (cases "ids = [] \<or> ?c = []")
    case True
    then have "spec_genre idx ids = None"
      using u by (auto simp: spec_genre_def Let_def simp del: set_concat)
    with True c show ?thesis
      by (auto simp: join_genres_def)
  next
    case False
    then have "set ?c \<noteq> {}" by (simp del: set_concat)
    with False u have "spec_genre idx ids = Some (join_str '', '' (sorted_list_of_set (set ?c)))"
      by (simp add: spec_genre_def Let_def del: set_concat)
    with False c show ?thesis
      by (simp add: join_genres_def genre_pipeline del: set_concat)
  qed
qed

lemma spec_genre_set:
  "set ids' = set ids \<Longrightarrow> spec_genre idx ids' = spec_genre idx ids"
  by (auto simp: spec_genre_def Let_def)

text \<open>
  C1. For every track's artist id list and every ArtistGenreIndex, the genre that
  \<open>join_genres\<close> computes is the sorted, de-duplicated, comma-joined union of the genre
  lists of the artist ids, and null when there is no artist id or the union is empty.
  A list of the same artist ids in another order gives the same genre.
\<close>

theorem join_genres_sorted_union:
  "join_genres (index_dict idx) (map JStr ids) = Inr (spec_genre idx ids) \<and>
   (mset ids' = mset ids \<longrightarrow>
      join_genres (index_dict idx) (map JStr ids') = join_genres (index_dict idx) (map JStr ids))"
proof (intro conjI impI)
  show "join_genres (index_dict idx) (map JStr ids) = Inr (spec_genre idx ids)"
    by (rule join_genres_index)
next
  assume "mset ids' = mset ids"
  then have "set ids' = set ids"
    by (rule mset_eq_setD)
  then have "spec_genre idx ids' = spec_genre idx ids"
    by (rule spec_genre_set)
  then show "join_genres (index_dict idx) (map JStr ids')
               = join_genres (index_dict idx) (map JStr ids)"
    by (simp only: join_genres_index)
qed

theorem join_genres_sorted_union_witness:
  "mset [''B'', ''A''] = mset [''A'', ''B''] \<and>
   join_genres (index_dict [''A'' \<mapsto> [''rock''], ''B'' \<mapsto> [''pop'', ''rock'']])
     (map JStr [''B'', ''A'']) = Inr (Some ''pop, rock'')"
proof -
  let ?idx = "[''A'' \<mapsto> [''rock''], ''B'' \<mapsto> [''pop'', ''rock'']]"
  have m: "mset [''B'', ''A''] = mset [''A'', ''B'']"
    by simp
  have e: "join_genres (index_dict ?idx) (map JStr [''A'', ''B'']) = Inr (Some ''pop, rock'')"
    by (simp add: join_genres_def index_dict_def py_set_def py_sorted_def py_join_def)
  from join_genres_sorted_union [of ?idx "[''A'', ''B'']" "[''B'', ''A'']"] m e
  show ?thesis by simp
qed

section \<open>Aggregator: the total length\<close>

lemma map_filter_replicate_None:
  "List.map_filter (\<lambda>x. x) (replicate n None) = ([] :: rat list)"
  by (induction n) (simp_all add: List.map_filter_simps)

lemma fmt_fixed_zero: "fmt_fixed 2 0 = ''0.00''"
  by code_simp

text \<open>
  The scenario of the specification: durations of 180000 ms, null and 240000 ms give 3
  and 4 minutes and a null cell, a total of 7 minutes, shown as 0.12 hours.
\<close>

lemma scenario_three_durations:
  "map duration_min_of [JInt 180000, JNull, JInt 240000] = [Inr (Some 3), Inr None, Inr (Some 4)]"
  "series_sum [Some 3, None, Some 4] = Some 7"
  "total_length_metric (Some 7) = ''0.12''"
  by code_simp+

text \<open>
  C2. The total is the sum over the tracks whose duration is not null, and the claim has
  the metric read "not available" when every duration is null. In the program the sum of
  a column of null cells is 0 and not null, so the test of line 207 holds and the metric
  reads \<open>0.00\<close>: for a frame of \<open>n\<close> tracks without duration, \<open>N/A\<close> is never shown.
\<close>

theorem total_length_all_null_is_zero:
  "total_length_metric (series_sum (replicate n None)) = ''0.00'' \<and>
   total_length_metric (series_sum (replicate n None)) \<noteq> ''N/A''"
  by (simp add: total_length_metric_def series_sum_def map_filter_replicate_None fmt_fixed_zero)

section \<open>Playlist selection\<close>

lemma index_of_first:
  "y \<in> set xs \<Longrightarrow> \<exists>k. index_of xs y = Inr k \<and> k < length xs \<and> xs ! k = y \<and> (\<forall>j<k. xs ! j \<noteq> y)"
proof (induction xs)
  case Nil
  then show ?case by simp
next
  case (Cons x xs)
  show ?case
  proof (cases "x = y")
    case True
    then show ?thesis by simp
  next
    case False
    with Cons.prems have "y \<in> set xs" by simp
    from Cons.IH [OF this] obtain k where k: "index_of xs y = Inr k" "k < length xs"
      "xs ! k = y" "\<forall>j<k. xs ! j \<noteq> y" by blast
    have "\<forall>j<Suc k. (x # xs) ! j \<noteq> y"
      using False k(4) by (auto simp: nth_Cons split: nat.splits)
    with False k show ?thesis by simp
  qed
qed

text \<open>
  C10. When the widget returns one of the labels, the selected playlist is the first one
  in listed order whose label is the returned one: no playlist before it has that label.
  A playlist that comes after another one with the same label is therefore never the
  selected one, whichever of the equal labels the user chose.
\<close>

theorem select_playlist_first_match:
  assumes "selectbox (map (label repr) playlists) \<in> set (map (label repr) playlists)"
  shows "\<exists>k<length playlists.
           select_playlist repr selectbox playlists = Inr (playlists ! k)
         \<and> label repr (playlists ! k) = selectbox (map (label repr) playlists)
         \<and> (\<forall>j<k. label repr (playlists ! j) \<noteq> selectbox (map (label repr) playlists))"
proof -
  let ?ls = "map (label repr) playlists"
  from index_of_first [OF assms] obtain k where k: "index_of ?ls (selectbox ?ls) = Inr k"
    "k < length ?ls" "?ls ! k = selectbox ?ls" "\<forall>j<k. ?ls ! j \<noteq> selectbox ?ls" by blast
  have "select_playlist repr selectbox playlists = Inr (playlists ! k)"
    using k(1,2) by (simp add: select_playlist_def py_nth_def)
  moreover have "\<forall>j<k. label repr (playlists ! j) \<noteq> selectbox ?ls"
    using k(2,4) by auto
  ultimately show ?thesis using k(2,3) by auto
qed

theorem select_playlist_first_match_witness:
  "(\<lambda>ls. ls ! 1)
     (map (label (\<lambda>j. []))
        [\<lparr>pl_id = JStr ''p1'', pl_name = JStr ''Mix'', tracks_total = JInt 3\<rparr>,
         \<lparr>pl_id = JStr ''p2'', pl_name = JStr ''Mix'', tracks_total = JInt 3\<rparr>])
     \<in> set (map (label (\<lambda>j. []))
        [\<lparr>pl_id = JStr ''p1'', pl_name = JStr ''Mix'', tracks_total = JInt 3\<rparr>,
         \<lparr>pl_id = JStr ''p2'', pl_name = JStr ''Mix'', tracks_total = JInt 3\<rparr>])
   \<and> select_playlist (\<lambda>j. []) (\<lambda>ls. ls ! 1)
        [\<lparr>pl_id = JStr ''p1'', pl_name = JStr ''Mix'', tracks_total = JInt 3\<rparr>,
         \<lparr>pl_id = JStr ''p2'', pl_name = JStr ''Mix'', tracks_total = JInt 3\<rparr>]
       = Inr \<lparr>pl_id = JStr ''p1'', pl_name = JStr ''Mix'', tracks_total = JInt 3\<rparr>"
proof -
  let ?p1 = "\<lparr>pl_id = JStr ''p1'', pl_name = JStr ''Mix'', tracks_total = JInt 3\<rparr>"
  let ?p2 = "\<lparr>pl_id = JStr ''p2'', pl_name = JStr ''Mix'', tracks_total = JInt 3\<rparr>"
  let ?r = "\<lambda>j::json. ([]::string)"
  let ?sb = "\<lambda>ls::string list. ls ! 1"
  have same: "label ?r ?p2 = label ?r ?p1"
    by (simp add: label_def)
  have h: "?sb (map (label ?r) [?p1, ?p2]) \<in> set (map (label ?r) [?p1, ?p2])"
    by simp
  from select_playlist_first_match
         [where selectbox = ?sb and repr = ?r and playlists = "[?p1, ?p2]", OF h]
  obtain k where
    k: "k < length [?p1, ?p2]"
       "select_playlist ?r ?sb [?p1, ?p2] = Inr ([?p1, ?p2] ! k)"
       "\<forall>j<k. label ?r ([?p1, ?p2] ! j) \<noteq> ?sb (map (label ?r) [?p1, ?p2])"
    by blast
  have "k = 0"
  proof (rule ccontr)
    assume "k \<noteq> 0"
    then have "0 < k" by simp
    with k(3) have "label ?r ([?p1, ?p2] ! 0) \<noteq> ?sb (map (label ?r) [?p1, ?p2])"
      by blast
    then show False using same by simp
  qed
  with k(2) h show ?thesis by simp
qed

section \<open>Track Fetcher: the record of one track\<close>

lemma py_get_dict:
  "is_dict a \<Longrightarrow> py_get a k d = Inr (if has_key a k then field a k else d)"
  by (cases a) (auto split: option.splits)

lemma py_get_dict_null: "is_dict a \<Longrightarrow> py_get a k JNull = Inr (field a k)"
  by (cases a) (auto split: option.splits)

lemma comp_get_dicts:
  "list_all is_dict as \<Longrightarrow> comp_get k as = Inr (filter truthy (map (\<lambda>a. field a k) as))"
  by (induction as) (simp_all add: py_get_dict_null)

lemma py_join_strs:
  "list_all is_str xs \<Longrightarrow> py_join sep xs = Inr (join_str sep (map the_str xs))"
  by (simp add: py_join_def)

lemma names_are_strs:
  "list_all artist_ok as \<Longrightarrow> list_all is_str (filter truthy (map (\<lambda>a. field a ''name'') as))"
  by (induction as) (simp_all add: artist_ok_def)

lemma artist_ok_dicts: "list_all artist_ok as \<Longrightarrow> list_all is_dict as"
  by (induction as) (simp_all add: artist_ok_def)

lemma field_not_key: "\<not> has_key t k \<Longrightarrow> field t k = JNull"
  by (cases t) auto

lemma iter_artists:
  assumes "track_ok t"
  shows "rbind (py_get t ''artists'' (JList []))
           (\<lambda>a0. py_iter (if truthy a0 then a0 else JList [])) = Inr (artists_of t)"
proof -
  from assms have d: "is_dict t" by (simp add: track_ok_def)
  show ?thesis
  proof (cases "truthy (field t ''artists'')")
    case True
    with assms obtain as where as: "field t ''artists'' = JList as"
      by (auto simp: track_ok_def)
    have "has_key t ''artists''"
    proof (rule ccontr)
      assume "\<not> has_key t ''artists''"
      then have "field t ''artists'' = JNull" by (rule field_not_key)
      with True show False by simp
    qed
    with d as True show ?thesis
      by (simp add: py_get_dict artists_of_def)
  next
    case False
    then have "artists_of t = []"
      by (cases "field t ''artists''") (auto simp: artists_of_def)
    with d False show ?thesis
      by (simp add: py_get_dict)
  qed
qed

lemma album_name:
  assumes "track_ok t"
  shows "rbind (py_get t ''album'' (JDict [])) (\<lambda>alb. py_get alb ''name'' JNull)
           = Inr (field (field t ''album'') ''name'')"
proof -
  from assms have d: "is_dict t" and a: "has_key t ''album'' \<longrightarrow> is_dict (field t ''album'')"
    by (simp_all add: track_ok_def)
  show ?thesis
  proof (cases "has_key t ''album''")
    case True
    with d a show ?thesis by (simp add: py_get_dict field_not_key)
  next
    case False
    with d show ?thesis by (simp add: py_get_dict field_not_key)
  qed
qed

lemma make_track_ok:
  assumes "track_ok t"
  shows "make_track t =
     Inr \<lparr>track_id = field t ''id'', track_name = field t ''name'',
          artist = join_str '', '' (map the_str (filter truthy (map (\<lambda>a. field a ''name'') (artists_of t)))),
          artist_ids = filter truthy (map (\<lambda>a. field a ''id'') (artists_of t)),
          album = field (field t ''album'') ''name'',
          duration_ms = field t ''duration_ms'', popularity = field t ''popularity''\<rparr>"
proof -
  from assms have d: "is_dict t" and ok: "list_all artist_ok (artists_of t)"
    by (simp_all add: track_ok_def)
  have it: "py_get t ''artists'' (JList []) = Inr a0 \<Longrightarrow>
           py_iter (if truthy a0 then a0 else JList []) = Inr (artists_of t)" for a0
    using iter_artists [OF assms] by simp
  from d obtain a0 where a0: "py_get t ''artists'' (JList []) = Inr a0"
    by (simp add: py_get_dict)
  from d obtain alb where alb: "py_get t ''album'' (JDict []) = Inr alb"
    by (simp add: py_get_dict)
  have an: "py_get alb ''name'' JNull = Inr (field (field t ''album'') ''name'')"
    using album_name [OF assms] alb by simp
  show ?thesis
    unfolding make_track_def
    using a0 it [OF a0] alb an d
    by (simp add: comp_get_dicts [OF artist_ok_dicts [OF ok]] py_join_strs [OF names_are_strs [OF ok]]
        py_get_dict field_not_key)
qed

lemma issued_truthy: "issued v \<Longrightarrow> truthy v = (v \<noteq> JNull)"
  by (auto simp: issued_def)

lemma filter_issued:
  "list_all (\<lambda>a. issued (field a k)) as \<Longrightarrow>
     filter truthy (map (\<lambda>a. field a k) as) = filter (\<lambda>v. v \<noteq> JNull) (map (\<lambda>a. field a k) as)"
  by (induction as) (simp_all add: issued_truthy)

text \<open>
  C7. Take a track payload as the service types it: a dictionary whose \<open>artists\<close> entry
  is absent, null or a list of artist dictionaries, each with a name and an id that are
  a non-empty string, null or absent, and whose \<open>album\<close> entry, when there is one, is a
  dictionary. Then the Track Fetcher builds a record whose \<open>artist\<close> is the join of the
  artists' names in the order of the service, and whose \<open>artist_ids\<close> holds exactly the
  ids that are not null, in the same order; an artist with a name and no id is in the
  first and not in the second, and \<open>artist_ids\<close> has as many entries as there are artists
  with a non-null id: none, when no artist has one.
\<close>

theorem make_track_artists:
  assumes "track_ok t"
      and "list_all service_artist (artists_of t)"
  shows "\<exists>r. make_track t = Inr r
           \<and> artist r = join_str '', ''
                 (map the_str (filter (\<lambda>n. n \<noteq> JNull) (map (\<lambda>a. field a ''name'') (artists_of t))))
           \<and> artist_ids r = filter (\<lambda>i. i \<noteq> JNull) (map (\<lambda>a. field a ''id'') (artists_of t))
           \<and> length (artist_ids r)
                 = length (filter (\<lambda>a. field a ''id'' \<noteq> JNull) (artists_of t))"
proof -
  have n: "list_all (\<lambda>a. issued (field a ''name'')) (artists_of t)"
    using assms(2) by (simp add: list_all_iff service_artist_def)
  have i: "list_all (\<lambda>a. issued (field a ''id'')) (artists_of t)"
    using assms(2) by (simp add: list_all_iff service_artist_def)
  have "length (filter (\<lambda>i. i \<noteq> JNull) (map (\<lambda>a. field a ''id'') (artists_of t)))
          = length (filter (\<lambda>a. field a ''id'' \<noteq> JNull) (artists_of t))"
    by (induction "artists_of t") (simp_all add: filter_map comp_def)
  then show ?thesis
    by (simp add: make_track_ok [OF assms(1)] filter_issued [OF n] filter_issued [OF i])
qed

theorem make_track_artists_witness:
  "make_track (JDict [(''name'', JStr ''Song''),
                    (''artists'', JList [JDict [(''id'', JStr ''a1''), (''name'', JStr ''A'')],
                                         JDict [(''name'', JStr ''B'')],
                                         JDict [(''id'', JStr ''a3''), (''name'', JNull)]])])
       = Inr \<lparr>track_id = JNull, track_name = JStr ''Song'', artist = ''A, B'',
              artist_ids = [JStr ''a1'', JStr ''a3''], album = JNull, duration_ms = JNull,
              popularity = JNull\<rparr>"
proof -
  let ?t = "JDict [(''name'', JStr ''Song''),
                    (''artists'', JList [JDict [(''id'', JStr ''a1''), (''name'', JStr ''A'')],
                                         JDict [(''name'', JStr ''B'')],
                                         JDict [(''id'', JStr ''a3''), (''name'', JNull)]])]"
  have ok: "track_ok ?t"
    by (simp add: track_ok_def artists_of_def artist_ok_def)
  have sv: "list_all service_artist (artists_of ?t)"
    by (simp add: artists_of_def service_artist_def issued_def)
  from make_track_artists [OF ok sv] obtain r where r: "make_track ?t = Inr r"
    and a: "artist r = join_str '', ''
        (map the_str (filter (\<lambda>n. n \<noteq> JNull) (map (\<lambda>a. field a ''name'') (artists_of ?t))))"
    and i: "artist_ids r = filter (\<lambda>i. i \<noteq> JNull) (map (\<lambda>a. field a ''id'') (artists_of ?t))"
    by blast
  from a have a': "artist r = ''A, B''"
    by (simp add: artists_of_def)
  from i have i': "artist_ids r = [JStr ''a1'', JStr ''a3'']"
    by (simp add: artists_of_def)
  have "track_id r = JNull \<and> track_name r = JStr ''Song'' \<and> album r = JNull
          \<and> duration_ms r = JNull \<and> popularity r = JNull"
    using r by (auto simp: make_track_def py_join_def)
  with a' i' have "r = \<lparr>track_id = JNull, track_name = JStr ''Song'', artist = ''A, B'',
              artist_ids = [JStr ''a1'', JStr ''a3''], album = JNull, duration_ms = JNull,
              popularity = JNull\<rparr>"
    by (cases r) simp
  with r show ?thesis
    by simp
qed

section \<open>Playlist Lister: defaults and the cap\<close>

lemma playlists_loop_items:
  "list_all lister_item_ok items \<Longrightarrow>
     playlists_loop items acc = Inr (acc @ map summary_of items)"
proof (induction items arbitrary: acc)
  case Nil
  show ?case by simp
next
  case (Cons item items)
  from Cons.prems have rest: "list_all lister_item_ok items" and ok: "lister_item_ok item"
    by simp_all
  from ok have d: "is_dict item"
    and t: "has_key item ''tracks'' \<longrightarrow> is_dict (field item ''tracks'')"
    by (simp_all add: lister_item_ok_def)
  have g: "rbind (py_get item ''tracks'' (JDict [])) (\<lambda>t. py_get t ''total'' (JInt 0))
             = Inr (tracks_total (summary_of item))"
    using d t by (simp add: py_get_dict summary_of_def)
  from d obtain tr where tr: "py_get item ''tracks'' (JDict []) = Inr tr"
    by (simp add: py_get_dict)
  with g have g': "py_get tr ''total'' (JInt 0) = Inr (tracks_total (summary_of item))"
    by simp
  have "playlists_loop (item # items) acc = playlists_loop items (acc @ [summary_of item])"
    using d tr g' by (simp add: py_get_dict field_not_key summary_of_def)
  then show ?case
    using Cons.IH [OF rest, of "acc @ [summary_of item]"] by simp
qed

text \<open>
  What the Playlist Lister does on the items that it maps without raising. It makes one
  request, with limit 50, and no request for a further page; when the answer's items
  are dictionaries whose \<open>tracks\<close> entry, if there is one, is a dictionary, it returns
  one summary for each item of that answer, with null for an absent id or name and 0 for
  an absent \<open>tracks\<close> or \<open>total\<close>. An answer without playlists ends \<open>main\<close> with the
  "no playlists" message, once the profile has been fetched.
\<close>

lemma fetch_playlists_summaries:
  assumes "sp_current_user_playlists sp 50 = Inr r"
      and "py_get r ''items'' (JList []) = Inr (JList items)"
      and "list_all lister_item_ok items"
  shows "fetch_playlists sp = Inr (map summary_of items)"
  using assms(1,2) playlists_loop_items [OF assms(3), of "[]"]
  by (simp add: fetch_playlists_def)

lemma no_playlists_message:
  assumes "rbind (sp_current_user sp)
             (\<lambda>user. py_get user ''display_name'' (JStr ''Unknown user'')) = Inr d"
      and "fetch_playlists sp = Inr []"
  shows "main (Some sp) repr selectbox set_order = Some NoPlaylists"
  using assms by (simp add: main_def)

text \<open>
  C6. The claim has every item mapped without raising, a missing \<open>tracks\<close> object or
  total giving 0. Line 52 does so for an item from which the \<open>tracks\<close> key is absent: the
  default of the first \<open>get\<close> is the empty dictionary, and the total is 0. The default is
  used for an absent key only: for an item whose \<open>tracks\<close> entry is null the first \<open>get\<close>
  returns None, the second \<open>get\<close> is called on None, and the Playlist Lister raises
  AttributeError, which nothing in \<open>main\<close> catches. The other fetchers guard a null in
  that place (\<open>track.get("artists", []) or []\<close>, \<open>artist.get("genres", []) or []\<close>).
\<close>

theorem fetch_playlists_null_tracks_raises:
  "fetch_playlists
     \<lparr>sp_current_user = Inr (JDict [(''display_name'', JStr ''u'')]),
      sp_current_user_playlists =
        (\<lambda>n. Inr (JDict [(''items'',
               JList [JDict [(''id'', JStr ''p1''), (''name'', JStr ''Mix''), (''tracks'', JNull)]])])),
      sp_playlist_tracks = (\<lambda>p n. Inl OtherException),
      sp_next = (\<lambda>p. Inl OtherException),
      sp_artists = (\<lambda>b. Inl OtherException)\<rparr>
     = Inl AttributeError
   \<and> main (Some
     \<lparr>sp_current_user = Inr (JDict [(''display_name'', JStr ''u'')]),
      sp_current_user_playlists =
        (\<lambda>n. Inr (JDict [(''items'',
               JList [JDict [(''id'', JStr ''p1''), (''name'', JStr ''Mix''), (''tracks'', JNull)]])])),
      sp_playlist_tracks = (\<lambda>p n. Inl OtherException),
      sp_next = (\<lambda>p. Inl OtherException),
      sp_artists = (\<lambda>b. Inl OtherException)\<rparr>) repr selectbox set_order
     = Some (Uncaught AttributeError)
   \<and> fetch_playlists
     \<lparr>sp_current_user = Inr (JDict [(''display_name'', JStr ''u'')]),
      sp_current_user_playlists =
        (\<lambda>n. Inr (JDict [(''items'',
               JList [JDict [(''id'', JStr ''p1''), (''name'', JStr ''Mix'')]])])),
      sp_playlist_tracks = (\<lambda>p n. Inl OtherException),
      sp_next = (\<lambda>p. Inl OtherException),
      sp_artists = (\<lambda>b. Inl OtherException)\<rparr>
     = Inr [\<lparr>pl_id = JStr ''p1'', pl_name = JStr ''Mix'', tracks_total = JInt 0\<rparr>]"
  by (simp add: fetch_playlists_def main_def)

section \<open>Failures during the analysis of a playlist\<close>

lemma fetch_first_page_fails:
  "sp_playlist_tracks sp pid 100 = Inl e \<Longrightarrow> fetch_playlist_tracks sp pid = Some (Inl e)"
  by (simp add: fetch_playlist_tracks_def)

text \<open>
  C5, as the program has it. \<open>main\<close> has no handler around the analysis of the selected
  playlist: once the profile, the playlists and the selection have succeeded, an
  exception of the first track-page request, of any later part of the Track Fetcher or
  of the Genre Enricher leaves \<open>main\<close> uncaught.
\<close>

theorem analysis_failure_propagates:
  assumes "rbind (sp_current_user sp)
             (\<lambda>user. py_get user ''display_name'' (JStr ''Unknown user'')) = Inr d"
      and "fetch_playlists sp = Inr playlists"
      and "playlists \<noteq> []"
      and "select_playlist repr selectbox playlists = Inr selected"
  shows "(sp_playlist_tracks sp (pl_id selected) 100 = Inl e
            \<longrightarrow> main (Some sp) repr selectbox set_order = Some (Uncaught e))
       \<and> (fetch_playlist_tracks sp (pl_id selected) = Some (Inl e)
            \<longrightarrow> main (Some sp) repr selectbox set_order = Some (Uncaught e))
       \<and> (fetch_playlist_tracks sp (pl_id selected) = Some (Inr tracks) \<and> tracks \<noteq> []
            \<and> add_genres_if_available set_order (sp_artists sp) tracks = Inl e
            \<longrightarrow> main (Some sp) repr selectbox set_order = Some (Uncaught e))"
  using assms by (auto simp: main_def analyse_def fetch_first_page_fails)

theorem analysis_failure_propagates_witness:
  "fetch_playlist_tracks
     \<lparr>sp_current_user = Inr (JDict [(''display_name'', JStr ''u'')]),
      sp_current_user_playlists =
        (\<lambda>n. Inr (JDict [(''items'', JList [JDict [(''id'', JStr ''p1''), (''name'', JStr ''Mix'')]])])),
      sp_playlist_tracks = (\<lambda>p n. Inr (JDict [(''items'', JList []), (''next'', JStr ''page2'')])),
      sp_next = (\<lambda>p. Inl OtherException),
      sp_artists = (\<lambda>b. Inl OtherException)\<rparr> (JStr ''p1'')
     = Some (Inl OtherException)
   \<and> main (Some
     \<lparr>sp_current_user = Inr (JDict [(''display_name'', JStr ''u'')]),
      sp_current_user_playlists =
        (\<lambda>n. Inr (JDict [(''items'', JList [JDict [(''id'', JStr ''p1''), (''name'', JStr ''Mix'')]])])),
      sp_playlist_tracks = (\<lambda>p n. Inr (JDict [(''items'', JList []), (''next'', JStr ''page2'')])),
      sp_next = (\<lambda>p. Inl OtherException),
      sp_artists = (\<lambda>b. Inl OtherException)\<rparr>)
     (\<lambda>j. []) (\<lambda>ls. ls ! 0) (\<lambda>ids. ids)
   = Some (Uncaught OtherException)"
proof -
  let ?sp = "\<lparr>sp_current_user = Inr (JDict [(''display_name'', JStr ''u'')]),
      sp_current_user_playlists =
        (\<lambda>n. Inr (JDict [(''items'', JList [JDict [(''id'', JStr ''p1''), (''name'', JStr ''Mix'')]])])),
      sp_playlist_tracks = (\<lambda>p n. Inr (JDict [(''items'', JList []), (''next'', JStr ''page2'')])),
      sp_next = (\<lambda>p. Inl OtherException),
      sp_artists = (\<lambda>b. Inl OtherException)\<rparr>"
  let ?p = "\<lparr>pl_id = JStr ''p1'', pl_name = JStr ''Mix'', tracks_total = JInt 0\<rparr>"
  have h1: "rbind (sp_current_user ?sp)
              (\<lambda>user. py_get user ''display_name'' (JStr ''Unknown user'')) = Inr (JStr ''u'')"
    by simp
  have h2: "fetch_playlists ?sp = Inr [?p]"
    by (simp add: fetch_playlists_def)
  have h3: "[?p] \<noteq> []"
    by simp
  have h4: "select_playlist (\<lambda>j. []) (\<lambda>ls. ls ! 0) [?p] = Inr ?p"
    by (simp add: select_playlist_def py_nth_def)
  have f: "fetch_playlist_tracks ?sp (pl_id ?p) = Some (Inl OtherException)"
    by (simp add: fetch_playlist_tracks_def fetch_loop.simps)
  from analysis_failure_propagates
         [where selectbox = "\<lambda>ls. ls ! 0" and repr = "\<lambda>j. []", OF h1 h2 h3 h4] f
  have "main (Some ?sp) (\<lambda>j. []) (\<lambda>ls. ls ! 0) (\<lambda>ids. ids) = Some (Uncaught OtherException)"
    by blast
  with f show ?thesis by simp
qed

text \<open>
  The claim as stated has every such failure caught and shown as a generic error. A
  track-page request that the service rejects with status 500 ends \<open>main\<close> with the
  exception uncaught.
\<close>

theorem track_page_failure_uncaught_counterexample:
  "main (Some
     \<lparr>sp_current_user = Inr (JDict [(''display_name'', JStr ''u'')]),
      sp_current_user_playlists =
        (\<lambda>n. Inr (JDict [(''items'', JList [JDict [(''id'', JStr ''p1''), (''name'', JStr ''Mix'')]])])),
      sp_playlist_tracks = (\<lambda>p n. Inl (SpotifyException 500)),
      sp_next = (\<lambda>p. Inl OtherException),
      sp_artists = (\<lambda>b. Inl OtherException)\<rparr>)
     (\<lambda>j. []) (\<lambda>ls. ls ! 0) (\<lambda>ids. ids)
   = Some (Uncaught (SpotifyException 500))"
  by (simp add: main_def fetch_playlists_def select_playlist_def py_nth_def analyse_def
      fetch_playlist_tracks_def)

section \<open>Genre Enricher: the batch loop\<close>

lemma artist_loop_index:
  "list_all entry_ok as \<Longrightarrow> artist_loop as gm = Inr (gm ++ artist_index as)"
proof (induction as arbitrary: gm)
  case Nil
  show ?case by simp
next
  case (Cons a as)
  from Cons.prems have ok: "entry_ok a" and rest: "list_all entry_ok as"
    by simp_all
  show ?case
  proof (cases "truthy a")
    case False
    then show ?thesis using Cons.IH [OF rest] by simp
  next
    case True
    with ok have d: "is_dict a" and h: "truthy (field a ''id'') \<longrightarrow> hashable (field a ''id'')"
      by (simp_all add: entry_ok_def)
    show ?thesis
    proof (cases "truthy (field a ''id'')")
      case False
      with True d show ?thesis
        using Cons.IH [OF rest] by (simp add: py_get_dict_null)
    next
      case id: True
      have g: "py_get a ''genres'' (JList []) = Inr g \<Longrightarrow>
                 (if truthy g then g else JList []) = genres_value a" for g
        using d by (auto simp: py_get_dict genres_value_def field_not_key split: if_splits)
      from d obtain g where gg: "py_get a ''genres'' (JList []) = Inr g"
        by (simp add: py_get_dict)
      have "artist_loop (a # as) gm
              = artist_loop as (gm(field a ''id'' \<mapsto> genres_value a))"
        using True d id h gg g [OF gg] by (simp add: py_get_dict_null)
      also have "\<dots> = Inr (gm(field a ''id'' \<mapsto> genres_value a) ++ artist_index as)"
        by (rule Cons.IH [OF rest])
      also have "gm(field a ''id'' \<mapsto> genres_value a) ++ artist_index as
                   = gm ++ artist_index (a # as)"
        using True id by (intro ext) (simp add: map_add_def split: option.splits)
      finally show ?thesis .
    qed
  qed
qed

lemma resp_artists_iter:
  assumes "resp_ok r"
  shows "rbind (py_get r ''artists'' (JList [])) py_iter = Inr (resp_artists r)"
proof -
  from assms have d: "is_dict r" and l: "has_key r ''artists'' \<longrightarrow> is_list (field r ''artists'')"
    by (simp_all add: resp_ok_def)
  show ?thesis
  proof (cases "has_key r ''artists''")
    case True
    with l obtain as where "field r ''artists'' = JList as"
      by (cases "field r ''artists''") auto
    with d True show ?thesis by (simp add: py_get_dict resp_artists_def)
  next
    case False
    with d show ?thesis by (simp add: py_get_dict resp_artists_def field_not_key)
  qed
qed

lemma batch_loop_index:
  "list_all (answers_or_rejects lookup) bs \<Longrightarrow>
     batch_loop lookup bs st =
       Inr \<lparr>genres_map = genres_map st ++ batch_index lookup bs,
            warnings = warnings st @ batch_warnings lookup bs,
            calls = calls st @ bs\<rparr>"
proof (induction bs arbitrary: st)
  case Nil
  show ?case by (simp add: batch_warnings_def)
next
  case (Cons b bs)
  from Cons.prems have ok: "answers_or_rejects lookup b"
    and rest: "list_all (answers_or_rejects lookup) bs"
    by simp_all
  show ?case
  proof (cases "lookup b")
    case (Inl e)
    with ok obtain status where e: "e = SpotifyException status"
      by (cases e) (simp_all add: answers_or_rejects_def)
    show ?thesis
      using Inl e Cons.IH [OF rest]
      by (simp add: Let_def own_index_def batch_warnings_def)
  next
    case (Inr r)
    with ok have rk: "resp_ok r"
      by (simp add: answers_or_rejects_def)
    then have ents: "list_all entry_ok (resp_artists r)"
      by (simp add: resp_ok_def)
    from resp_artists_iter [OF rk] obtain arts where
      a1: "py_get r ''artists'' (JList []) = Inr arts" and a2: "py_iter arts = Inr (resp_artists r)"
      by (cases "py_get r ''artists'' (JList [])") auto
    show ?thesis
      using Inr a1 a2 artist_loop_index [OF ents] Cons.IH [OF rest]
      by (simp add: Let_def own_index_def batch_warnings_def)
  qed
qed

section \<open>Genre Enricher: tracks without artist ids\<close>

lemma duration_column_length:
  "duration_column ts = Inr ds \<Longrightarrow> length ds = length ts"
proof (induction ts arbitrary: ds)
  case Nil
  then show ?case by simp
next
  case (Cons t ts)
  then show ?case
    by (cases "duration_min_of (duration_ms t)"; cases "duration_column ts") auto
qed

lemma collect_ids_falsy:
  "\<forall>a\<in>set xs. \<not> truthy a \<Longrightarrow> collect_ids xs seen = Inr seen"
  by (induction xs) simp_all

lemma genre_map2_None:
  "length ds = length ts \<Longrightarrow>
     \<forall>r\<in>set (map2 (\<lambda>t d. make_row True t d None) ts ds). genre r = None"
  by (auto simp: make_row_def set_zip)

text \<open>
  C8. When no track has a truthy artist id (in particular when the set of non-null artist
  ids is empty), the Genre Enricher returns a frame with one row per track, every genre
  null, and has made no artist lookup and shown no warning; the lookup function plays no
  part in the result. The durations are those of a frame that accepts them (integer or
  null).
\<close>

theorem no_artist_ids_no_lookup:
  assumes "\<forall>t\<in>set tracks. \<forall>a\<in>set (artist_ids t). \<not> truthy a"
      and "duration_column tracks = Inr ds"
  shows "\<exists>df. add_genres_if_available set_order lookup tracks = Inr df
           \<and> lookups df = [] \<and> shown_warnings df = []
           \<and> length (rows df) = length tracks
           \<and> (\<forall>r\<in>set (rows df). genre r = None)"
proof -
  have ids: "all_artist_ids tracks = Inr []"
    using assms(1) by (simp add: all_artist_ids_def collect_ids_falsy)
  have len: "length ds = length tracks"
    using assms(2) by (rule duration_column_length)
  show ?thesis
  proof (cases "tracks = []")
    case True
    with assms(2) show ?thesis
      by (simp add: add_genres_if_available_def)
  next
    case False
    with assms(2) ids have
      "add_genres_if_available set_order lookup tracks
         = Inr \<lparr>rows = map2 (\<lambda>t d. make_row True t d None) tracks ds,
                shown_warnings = [], lookups = []\<rparr>"
      by (simp add: add_genres_if_available_def)
    then show ?thesis
      using len genre_map2_None [OF len] by simp
  qed
qed

theorem no_artist_ids_no_lookup_witness:
  "add_genres_if_available (\<lambda>ids. ids) (\<lambda>b. Inl OtherException)
        [\<lparr>track_id = JStr ''t1'', track_name = JStr ''Song'', artist = ''A'',
          artist_ids = [], album = JNull, duration_ms = JInt 180000, popularity = JNull\<rparr>]
      = Inr \<lparr>rows = [\<lparr>row_id = JStr ''t1'', row_name = JStr ''Song'', row_artist = ''A'',
                       row_artist_ids = Some [], row_album = JNull,
                       row_duration_ms = JInt 180000, row_popularity = JNull,
                       duration_min = Some 3, genre = None\<rparr>],
             shown_warnings = [], lookups = []\<rparr>"
proof -
  let ?t = "\<lparr>track_id = JStr ''t1'', track_name = JStr ''Song'', artist = ''A'',
             artist_ids = [], album = JNull, duration_ms = JInt 180000, popularity = JNull\<rparr>"
  have h1: "\<forall>t\<in>set [?t]. \<forall>a\<in>set (artist_ids t). \<not> truthy a"
    by simp
  have r: "round2 3 = 3"
    by code_simp
  have h2: "duration_column [?t] = Inr [Some 3]"
    by (simp add: r)
  from no_artist_ids_no_lookup [OF h1 h2, of "\<lambda>ids. ids" "\<lambda>b. Inl OtherException"]
  obtain df where df: "add_genres_if_available (\<lambda>ids. ids) (\<lambda>b. Inl OtherException) [?t] = Inr df"
    "lookups df = []" by blast
  have "add_genres_if_available (\<lambda>ids. ids) (\<lambda>b. Inl OtherException) [?t]
          = Inr \<lparr>rows = [make_row True ?t (Some 3) None], shown_warnings = [], lookups = []\<rparr>"
    using h2 by (simp add: add_genres_if_available_def all_artist_ids_def)
  with df show ?thesis
    by (simp add: make_row_def)
qed

section \<open>Genre Enricher: artist ids, batches and a service that answers per artist\<close>

lemma concat_batches: "0 < n \<Longrightarrow> concat (batches n xs) = xs"
proof (induction n xs rule: batches.induct)
  case (1 n xs)
  show ?case
  proof (cases "xs = []")
    case True
    then show ?thesis by (subst batches.simps) simp
  next
    case False
    with "1.prems" have "concat (batches n (drop n xs)) = drop n xs"
      using "1.IH" by simp
    with False "1.prems" show ?thesis
      by (subst batches.simps) (simp del: batches.simps)
  qed
qed

lemma collect_ids_skip: "\<not> truthy a \<Longrightarrow> collect_ids (a # xs) seen = collect_ids xs seen"
  by (subst collect_ids.simps) simp

lemma collect_ids_unhashable:
  "truthy a \<Longrightarrow> \<not> hashable a \<Longrightarrow> collect_ids (a # xs) seen = Inl TypeError"
  by (subst collect_ids.simps) simp

lemma collect_ids_step:
  "truthy a \<Longrightarrow> hashable a \<Longrightarrow>
     collect_ids (a # xs) seen = collect_ids xs (if a \<in> set seen then seen else seen @ [a])"
  by (subst collect_ids.simps) (simp del: collect_ids.simps split del: if_split)

lemma collect_ids_inv:
  "collect_ids xs seen = Inr ids \<Longrightarrow>
     (\<forall>a\<in>set seen. truthy a \<and> hashable a) \<and> distinct seen \<Longrightarrow>
     (\<forall>a\<in>set ids. truthy a \<and> hashable a) \<and> distinct ids"
proof (induction xs arbitrary: seen)
  case Nil
  then show ?case by simp
next
  case (Cons a xs)
  show ?case
  proof (cases "truthy a")
    case False
    then have "collect_ids (a # xs) seen = collect_ids xs seen"
      by (rule collect_ids_skip)
    then have "collect_ids xs seen = collect_ids (a # xs) seen"
      by (rule sym)
    also have "\<dots> = Inr ids"
      by (rule Cons.prems(1))
    finally have c: "collect_ids xs seen = Inr ids" .
    from Cons.IH [OF c Cons.prems(2)] show ?thesis .
  next
    case True
    have h: "hashable a"
    proof (rule ccontr)
      assume "\<not> hashable a"
      with True have "collect_ids (a # xs) seen = Inl TypeError"
        by (rule collect_ids_unhashable)
      then have "Inl TypeError = collect_ids (a # xs) seen"
        by (rule sym)
      also have "\<dots> = Inr ids"
        by (rule Cons.prems(1))
      finally show False by simp
    qed
    define seen' where "seen' = (if a \<in> set seen then seen else seen @ [a])"
    have "collect_ids (a # xs) seen = collect_ids xs seen'"
      unfolding seen'_def using True h by (rule collect_ids_step)
    then have "collect_ids xs seen' = collect_ids (a # xs) seen"
      by (rule sym)
    also have "\<dots> = Inr ids"
      by (rule Cons.prems(1))
    finally have c: "collect_ids xs seen' = Inr ids" .
    have inv: "(\<forall>a\<in>set seen'. truthy a \<and> hashable a) \<and> distinct seen'"
    proof (cases "a \<in> set seen")
      case True
      then have "seen' = seen" by (simp add: seen'_def)
      with Cons.prems(2) show ?thesis by simp
    next
      case False
      then have "seen' = seen @ [a]" by (simp add: seen'_def)
      with Cons.prems(2) False True h show ?thesis by simp
    qed
    from Cons.IH [OF c inv] show ?thesis .
  qed
qed

lemma all_artist_ids_props:
  assumes "all_artist_ids tracks = Inr ids"
  shows "\<forall>a\<in>set ids. truthy a \<and> hashable a" and "distinct ids"
proof -
  have "collect_ids (concat (map artist_ids tracks)) [] = Inr ids"
    using assms by (simp only: all_artist_ids_def)
  from collect_ids_inv [OF this]
  have "(\<forall>a\<in>set ids. truthy a \<and> hashable a) \<and> distinct ids"
    by simp
  then show "\<forall>a\<in>set ids. truthy a \<and> hashable a" and "distinct ids"
    by blast+
qed

lemma map_add_apply: "(m1 ++ m2) k = (case m2 k of None \<Rightarrow> m1 k | Some v \<Rightarrow> Some v)"
  by (simp add: map_add_def)

lemma artist_index_info:
  assumes "\<forall>a. truthy (info a) \<longrightarrow> is_dict (info a) \<and> field (info a) ''id'' = a"
      and "\<forall>a\<in>set b. truthy a"
  shows "artist_index (map info b) k
           = (if k \<in> set b \<and> truthy (info k) then Some (genres_value (info k)) else None)"
  using assms(2)
proof (induction b)
  case Nil
  show ?case by simp
next
  case (Cons a b)
  then have IH: "artist_index (map info b) k
           = (if k \<in> set b \<and> truthy (info k) then Some (genres_value (info k)) else None)"
    and ta: "truthy a" by simp_all
  show ?case
  proof (cases "truthy (info a)")
    case True
    with assms(1) have "field (info a) ''id'' = a" by blast
    with True ta IH show ?thesis
      by (auto simp: map_add_apply)
  next
    case False
    with IH show ?thesis
      by (auto simp: map_add_apply)
  qed
qed

lemma batch_index_info:
  assumes "\<forall>b. lookup b = Inr (JDict [(''artists'', JList (map info b))])"
      and "\<forall>a. truthy (info a) \<longrightarrow> is_dict (info a) \<and> field (info a) ''id'' = a"
      and "\<forall>a\<in>set (concat bs). truthy a"
  shows "batch_index lookup bs k
           = (if k \<in> set (concat bs) \<and> truthy (info k) then Some (genres_value (info k)) else None)"
  using assms(3)
proof (induction bs)
  case Nil
  show ?case by simp
next
  case (Cons b bs)
  then have IH: "batch_index lookup bs k
           = (if k \<in> set (concat bs) \<and> truthy (info k) then Some (genres_value (info k)) else None)"
    and tb: "\<forall>a\<in>set b. truthy a" by simp_all
  have "own_index lookup b = artist_index (map info b)"
    using assms(1) by (simp add: own_index_def resp_artists_def)
  with artist_index_info [OF assms(2) tb] IH show ?case
    by (auto simp: map_add_apply)
qed

lemma info_answers:
  assumes "\<forall>b. lookup b = Inr (JDict [(''artists'', JList (map info b))])"
      and "\<forall>a. truthy (info a) \<longrightarrow> is_dict (info a) \<and> field (info a) ''id'' = a"
      and "\<forall>a\<in>set b. truthy a \<and> hashable a"
  shows "answers_or_rejects lookup b"
proof -
  have "list_all entry_ok (map info b)"
    using assms(2,3) by (induction b) (auto simp: entry_ok_def)
  then show ?thesis
    using assms(1) by (simp add: answers_or_rejects_def resp_ok_def resp_artists_def)
qed

section \<open>Genre Enricher: the order of the artist ids\<close>

lemma batch_warnings_answered:
  "\<forall>b\<in>set bs. \<exists>r. lookup b = Inr r \<Longrightarrow> batch_warnings lookup bs = []"
  by (induction bs) (auto simp: batch_warnings_def)

lemma per_artist_loop:
  assumes svc: "\<forall>b. lookup b = Inr (JDict [(''artists'', JList (map info b))])"
      and info: "\<forall>a. truthy (info a) \<longrightarrow> is_dict (info a) \<and> field (info a) ''id'' = a"
      and ids: "\<forall>a\<in>set xs. truthy a \<and> hashable a"
  shows "batch_loop lookup (batches 50 xs) \<lparr>genres_map = Map.empty, warnings = [], calls = []\<rparr>
           = Inr \<lparr>genres_map = (\<lambda>k. if k \<in> set xs \<and> truthy (info k)
                                      then Some (genres_value (info k)) else None),
                  warnings = [], calls = batches 50 xs\<rparr>"
proof -
  let ?bs = "batches 50 xs"
  have c: "concat ?bs = xs"
    by (rule concat_batches) simp
  have sub: "\<forall>a\<in>set b. truthy a \<and> hashable a" if "b \<in> set ?bs" for b
  proof
    fix a assume "a \<in> set b"
    with that have "a \<in> set (concat ?bs)" by auto
    with c ids show "truthy a \<and> hashable a" by simp
  qed
  have ok: "list_all (answers_or_rejects lookup) ?bs"
    unfolding list_all_iff using info_answers [OF svc info sub] by blast
  have t: "\<forall>a\<in>set (concat ?bs). truthy a"
    using c ids by simp
  have idx: "batch_index lookup ?bs
               = (\<lambda>k. if k \<in> set xs \<and> truthy (info k) then Some (genres_value (info k)) else None)"
    using batch_index_info [OF svc info t] c by (intro ext) simp
  have w: "batch_warnings lookup ?bs = []"
    by (rule batch_warnings_answered) (simp add: svc)
  show ?thesis
    using batch_loop_index [OF ok, of "\<lparr>genres_map = Map.empty, warnings = [], calls = []\<rparr>"]
    by (simp add: idx w)
qed

text \<open>
  C9, as the program has it. Take a service that answers every batch lookup, rejecting
  none, with the details of each requested artist, the same for an artist whatever
  batch it is asked in (\<open>info\<close> gives the entry of an artist: null, or a dictionary with
  the artist's own id). Then for any two orders in which the set of artist ids may be
  enumerated, and so for any two ways of cutting it into batches, the Genre Enricher
  gives the same rows and the same warnings: the genre of every track is identical.
  Only the log of the batches differs.
\<close>

theorem enrichment_order_invariant:
  assumes svc: "\<forall>b. lookup b = Inr (JDict [(''artists'', JList (map info b))])"
      and info: "\<forall>a. truthy (info a) \<longrightarrow> is_dict (info a) \<and> field (info a) ''id'' = a"
      and p1: "\<forall>xs. mset (order1 xs) = mset xs"
      and p2: "\<forall>xs. mset (order2 xs) = mset xs"
  shows "map_sum id (\<lambda>df. (rows df, shown_warnings df))
           (add_genres_if_available order1 lookup tracks)
       = map_sum id (\<lambda>df. (rows df, shown_warnings df))
           (add_genres_if_available order2 lookup tracks)"
proof (cases "duration_column tracks")
  case (Inl e)
  then show ?thesis by (simp add: add_genres_if_available_def)
next
  case ds: (Inr ds)
  show ?thesis
  proof (cases "tracks = []")
    case True
    with ds show ?thesis by (simp add: add_genres_if_available_def)
  next
    case ne: False
    show ?thesis
    proof (cases "all_artist_ids tracks")
      case (Inl e)
      with ds ne show ?thesis by (simp add: add_genres_if_available_def)
    next
      case (Inr ids)
      show ?thesis
      proof (cases "ids = []")
        case True
        with ds ne Inr show ?thesis by (simp add: add_genres_if_available_def)
      next
        case False
        let ?G = "\<lambda>k. if k \<in> set ids \<and> truthy (info k) then Some (genres_value (info k)) else None"
        have loop: "batch_loop lookup (batches 50 (ord ids))
                      \<lparr>genres_map = Map.empty, warnings = [], calls = []\<rparr>
                    = Inr \<lparr>genres_map = ?G, warnings = [], calls = batches 50 (ord ids)\<rparr>"
          if "\<forall>xs. mset (ord xs) = mset xs" for ord
        proof -
          from that have "mset (ord ids) = mset ids" by blast
          then have s: "set (ord ids) = set ids" by (rule mset_eq_setD)
          with all_artist_ids_props(1) [OF Inr]
          have "\<forall>a\<in>set (ord ids). truthy a \<and> hashable a" by simp
          from per_artist_loop [OF svc info this] s show ?thesis by simp
        qed
        have run: "add_genres_if_available ord lookup tracks
                    = rbind (genre_column ?G tracks) (\<lambda>gs.
                        Inr \<lparr>rows = map2 (\<lambda>t (d, g). make_row False t d g) tracks (zip ds gs),
                             shown_warnings = [], lookups = batches 50 (ord ids)\<rparr>)"
          if "\<forall>xs. mset (ord xs) = mset xs" for ord
          using ds ne Inr False loop [OF that] by (simp add: add_genres_if_available_def)
        show ?thesis
          by (cases "genre_column ?G tracks") (simp_all add: run [OF p1] run [OF p2])
      qed
    qed
  qed
qed

theorem enrichment_order_invariant_witness:
  "genre_at 1 (add_genres_if_available rev answering many_tracks) = Inr (Some ''genre a02'')
   \<and> genre_at 1 (add_genres_if_available id answering many_tracks) = Inr (Some ''genre a02'')
   \<and> genre_at 50 (add_genres_if_available rev answering many_tracks) = Inr (Some ''genre a51'')
   \<and> genre_at 50 (add_genres_if_available id answering many_tracks) = Inr (Some ''genre a51'')
   \<and> batches_of (add_genres_if_available rev answering many_tracks)
       = Inr [rev (drop 1 many_ids), take 1 many_ids]
   \<and> batches_of (add_genres_if_available id answering many_tracks)
       = Inr [take 50 many_ids, drop 50 many_ids]"
proof -
  have h1: "\<forall>b. answering b = Inr (JDict [(''artists'', JList (map artist_entry b))])"
    by (simp add: answering_def)
  have h2: "\<forall>a. truthy (artist_entry a) \<longrightarrow> is_dict (artist_entry a) \<and> field (artist_entry a) ''id'' = a"
    by (simp add: artist_entry_def)
  have h3: "\<forall>xs::json list. mset (rev xs) = mset xs"
    by simp
  have h4: "\<forall>xs::json list. mset (id xs) = mset xs"
    by simp
  from enrichment_order_invariant [where lookup = answering and info = artist_entry
         and ?order1.0 = rev and ?order2.0 = id and tracks = many_tracks, OF h1 h2 h3 h4]
  have eq: "map_sum id (\<lambda>df. (rows df, shown_warnings df))
              (add_genres_if_available rev answering many_tracks)
          = map_sum id (\<lambda>df. (rows df, shown_warnings df))
              (add_genres_if_available id answering many_tracks)" .
  have same: "genre_at i (add_genres_if_available rev answering many_tracks)
            = genre_at i (add_genres_if_available id answering many_tracks)" for i
    using eq
    by (cases "add_genres_if_available rev answering many_tracks";
        cases "add_genres_if_available id answering many_tracks") (simp_all add: genre_at_def)
  have g1: "genre_at 1 (add_genres_if_available id answering many_tracks) = Inr (Some ''genre a02'')"
    by code_simp
  have g50: "genre_at 50 (add_genres_if_available id answering many_tracks) = Inr (Some ''genre a51'')"
    by code_simp
  have b1: "batches_of (add_genres_if_available rev answering many_tracks)
       = Inr [rev (drop 1 many_ids), take 1 many_ids]"
    by code_simp
  have b2: "batches_of (add_genres_if_available id answering many_tracks)
       = Inr [take 50 many_ids, drop 50 many_ids]"
    by code_simp
  from same [of 1] same [of 50] g1 g50 b1 b2 show ?thesis
    by simp
qed

text \<open>
  The claim as stated asserts this for any two orderings, whatever the service does. A batch
  that the service rejects is skipped (lines 120 to 125), and the order of the ids
  decides which artists share a batch. The service \<open>rejecting_last\<close> rejects the batch
  that holds the id \<open>a51\<close>: in the order of insertion that batch holds \<open>a51\<close> alone and
  the second track has its genre, in the reverse order it holds \<open>a02\<close> too and the
  second track has none.
\<close>

theorem enrichment_order_rejected_batch_counterexample:
  "all_artist_ids many_tracks = Inr many_ids
   \<and> mset (rev many_ids) = mset (id many_ids)
   \<and> genre_at 1 (add_genres_if_available id rejecting_last many_tracks) = Inr (Some ''genre a02'')
   \<and> genre_at 1 (add_genres_if_available rev rejecting_last many_tracks) = Inr None"
proof -
  have "genre_at 1 (add_genres_if_available id rejecting_last many_tracks) = Inr (Some ''genre a02'')"
    by code_simp
  moreover have "genre_at 1 (add_genres_if_available rev rejecting_last many_tracks) = Inr None"
    by code_simp
  moreover have "all_artist_ids many_tracks = Inr many_ids"
    by code_simp
  ultimately show ?thesis by simp
qed

section \<open>Genre Enricher: what a run over the batches leaves in the index\<close>

lemma duration_column_ok:
  "list_all track_rec_ok tracks \<Longrightarrow> \<exists>ds. duration_column tracks = Inr ds"
proof (induction tracks)
  case Nil
  show ?case by simp
next
  case (Cons t ts)
  then obtain ds where ds: "duration_column ts = Inr ds" by auto
  from Cons.prems have "duration_ms t = JNull \<or> is_int (duration_ms t)"
    by (simp add: track_rec_ok_def)
  then obtain d where "duration_min_of (duration_ms t) = Inr d"
    by (cases "duration_ms t") auto
  with ds show ?case by simp
qed

lemma collect_ids_ok:
  "list_all hashable xs \<Longrightarrow> \<exists>ids. collect_ids xs seen = Inr ids"
proof (induction xs arbitrary: seen)
  case Nil
  show ?case by simp
next
  case (Cons a xs)
  then have h: "hashable a" and rest: "list_all hashable xs" by simp_all
  show ?case
  proof (cases "truthy a")
    case False
    then show ?thesis
      using Cons.IH [OF rest, of seen] by (simp only: collect_ids_skip [OF False])
  next
    case True
    then show ?thesis
      using Cons.IH [OF rest, of "if a \<in> set seen then seen else seen @ [a]"]
      by (simp only: collect_ids_step [OF True h])
  qed
qed

lemma all_artist_ids_ok:
  assumes "list_all track_rec_ok tracks"
  shows "\<exists>ids. all_artist_ids tracks = Inr ids"
proof -
  have "list_all hashable (concat (map artist_ids tracks))"
    using assms by (induction tracks) (simp_all add: track_rec_ok_def)
  then show ?thesis
    unfolding all_artist_ids_def by (rule collect_ids_ok)
qed

lemma artist_index_within:
  "list_all (entry_within b) as \<Longrightarrow> artist_index as k = Some g \<Longrightarrow> k \<in> set b \<and> str_list g"
proof (induction as)
  case Nil
  then show ?case by simp
next
  case (Cons a as)
  from Cons.prems(1) have ew: "entry_within b a" and rest: "list_all (entry_within b) as"
    by simp_all
  show ?case
  proof (cases "artist_index as k")
    case (Some v)
    with Cons.prems(2) have "artist_index as k = Some g"
      by (simp add: map_add_apply)
    from Cons.IH [OF rest this] show ?thesis .
  next
    case None
    with Cons.prems(2) have m: "(if truthy a \<and> truthy (field a ''id'')
            then [field a ''id'' \<mapsto> genres_value a] else Map.empty) k = Some g"
      by (simp add: map_add_apply)
    then have t: "truthy a \<and> truthy (field a ''id'')"
      by (auto split: if_splits)
    with m have "k = field a ''id''" and "g = genres_value a"
      by (auto split: if_splits)
    with ew t show ?thesis
      by (simp add: entry_within_def)
  qed
qed

lemma own_index_within:
  assumes "answers lookup b \<or> (\<exists>s. lookup b = Inl (SpotifyException s))"
      and "own_index lookup b k = Some g"
  shows "k \<in> set b \<and> str_list g"
proof (cases "lookup b")
  case (Inl e)
  with assms(2) show ?thesis by (simp add: own_index_def)
next
  case (Inr r)
  with assms(1) have "list_all (entry_within b) (resp_artists r)"
    by (auto simp: answers_def)
  moreover from Inr assms(2) have "artist_index (resp_artists r) k = Some g"
    by (simp add: own_index_def)
  ultimately show ?thesis by (rule artist_index_within)
qed

lemma batch_index_within:
  "\<forall>b\<in>set bs. \<forall>k g. own_index lookup b k = Some g \<longrightarrow> k \<in> set b \<and> str_list g \<Longrightarrow>
     batch_index lookup bs k = Some g \<Longrightarrow> k \<in> set (concat bs) \<and> str_list g"
proof (induction bs)
  case Nil
  then show ?case by simp
next
  case (Cons b bs)
  show ?case
  proof (cases "batch_index lookup bs k")
    case (Some v)
    with Cons.prems(2) have "batch_index lookup bs k = Some g"
      by (simp add: map_add_apply)
    with Cons.IH Cons.prems(1) show ?thesis by simp
  next
    case None
    with Cons.prems(2) have "own_index lookup b k = Some g"
      by (simp add: map_add_apply)
    with Cons.prems(1) show ?thesis by simp
  qed
qed




lemma collect_genres_none:
  "\<forall>k\<in>set row. gm k = None \<Longrightarrow> list_all hashable row \<Longrightarrow> collect_genres gm row acc = Inr acc"
  by (induction row arbitrary: acc) simp_all

lemma join_genres_none:
  "\<forall>k\<in>set row. gm k = None \<Longrightarrow> list_all hashable row \<Longrightarrow> join_genres gm row = Inr None"
  by (simp add: join_genres_def collect_genres_none)

lemma str_list_iter: "str_list g \<Longrightarrow> \<exists>xs. py_iter g = Inr xs \<and> list_all is_str xs"
  by (cases g) (simp_all add: str_list_def)

lemma collect_genres_typed:
  "\<forall>k g. gm k = Some g \<longrightarrow> str_list g \<Longrightarrow> list_all hashable row \<Longrightarrow> list_all is_str acc \<Longrightarrow>
     \<exists>c. collect_genres gm row acc = Inr c \<and> list_all is_str c"
proof (induction row arbitrary: acc)
  case Nil
  then show ?case by simp
next
  case (Cons a row)
  from Cons.prems(2) have h: "hashable a" and rest: "list_all hashable row" by simp_all
  have "\<exists>xs. py_iter (case gm a of None \<Rightarrow> JList [] | Some g \<Rightarrow> g) = Inr xs \<and> list_all is_str xs"
  proof (cases "gm a")
    case None
    then show ?thesis by simp
  next
    case (Some g)
    with Cons.prems(1) have "str_list g" by blast
    from str_list_iter [OF this] Some show ?thesis by simp
  qed
  then obtain xs where xs: "py_iter (case gm a of None \<Rightarrow> JList [] | Some g \<Rightarrow> g) = Inr xs"
    and sx: "list_all is_str xs" by blast
  from Cons.prems(3) sx have "list_all is_str (acc @ xs)" by simp
  from Cons.IH [OF Cons.prems(1) rest this] h xs show ?case by simp
qed

lemma is_str_hashable: "list_all is_str c \<Longrightarrow> list_all hashable c"
proof (induction c)
  case Nil
  show ?case by simp
next
  case (Cons x c)
  then show ?case by (cases x) simp_all
qed

lemma join_genres_typed:
  assumes "\<forall>k g. gm k = Some g \<longrightarrow> str_list g" and "list_all hashable row"
  shows "\<exists>g. join_genres gm row = Inr g"
proof -
  from collect_genres_typed [OF assms, of "[]"] obtain c where
    c: "collect_genres gm row [] = Inr c" and s: "list_all is_str c" by auto
  have s': "list_all is_str (remdups c)"
    using s by (simp add: list_all_iff)
  show ?thesis
    using c s' is_str_hashable [OF s]
    by (simp add: join_genres_def py_set_def py_sorted_def py_join_def)
qed

lemma genre_column_ok:
  "\<forall>t\<in>set tracks. \<exists>g. join_genres gm (artist_ids t) = Inr g \<Longrightarrow>
     \<exists>gs. genre_column gm tracks = Inr gs \<and> length gs = length tracks
        \<and> (\<forall>i<length tracks. join_genres gm (artist_ids (tracks ! i)) = Inr (gs ! i))"
proof (induction tracks)
  case Nil
  show ?case by simp
next
  case (Cons t ts)
  then obtain gs where gs: "genre_column gm ts = Inr gs" "length gs = length ts"
    "\<forall>i<length ts. join_genres gm (artist_ids (ts ! i)) = Inr (gs ! i)" by auto
  from Cons.prems obtain g where g: "join_genres gm (artist_ids t) = Inr g" by auto
  have "\<forall>i<length (t # ts). join_genres gm (artist_ids ((t # ts) ! i)) = Inr ((g # gs) ! i)"
    using g gs(3) by (auto simp: nth_Cons split: nat.splits)
  with g gs(1,2) show ?case by simp
qed

section \<open>Genre Enricher: a rejected batch\<close>

lemma svc_answers_or_rejects:
  "answers lookup b \<or> (\<exists>s. lookup b = Inl (SpotifyException s)) \<Longrightarrow> answers_or_rejects lookup b"
  by (auto simp: answers_def answers_or_rejects_def split: sum.splits)

lemma batches_Nil: "batches n [] = []"
  by (subst batches.simps) simp

lemma row_genre_nth:
  "length ds = length tracks \<Longrightarrow> length gs = length tracks \<Longrightarrow> i < length tracks \<Longrightarrow>
     genre (map2 (\<lambda>t (d, g). make_row False t d g) tracks (zip ds gs) ! i) = gs ! i"
  by (simp add: make_row_def)

lemma row_genre_None_nth:
  "length ds = length tracks \<Longrightarrow> i < length tracks \<Longrightarrow>
     genre (map2 (\<lambda>t d. make_row True t d None) tracks ds ! i) = None"
  by (simp add: make_row_def)

lemma enrich_result:
  assumes tr: "list_all track_rec_ok tracks"
      and perm: "\<forall>xs. mset (set_order xs) = mset xs"
      and svc: "\<forall>b. list_all hashable b \<longrightarrow>
                  answers lookup b \<or> (\<exists>s. lookup b = Inl (SpotifyException s))"
  shows "\<exists>df ids. add_genres_if_available set_order lookup tracks = Inr df
           \<and> all_artist_ids tracks = Inr ids
           \<and> lookups df = batches 50 (set_order ids)
           \<and> shown_warnings df = batch_warnings lookup (lookups df)
           \<and> length (rows df) = length tracks
           \<and> (\<forall>i<length tracks.
                 join_genres (batch_index lookup (lookups df)) (artist_ids (tracks ! i))
                   = Inr (genre (rows df ! i)))"
proof -
  from duration_column_ok [OF tr] obtain ds where ds: "duration_column tracks = Inr ds" ..
  then have lds: "length ds = length tracks" by (rule duration_column_length)
  from all_artist_ids_ok [OF tr] obtain ids where ids: "all_artist_ids tracks = Inr ids" ..
  have hash: "list_all hashable (artist_ids (tracks ! i))" if "i < length tracks" for i
    using tr that by (simp add: list_all_length track_rec_ok_def)
  have nil: "set_order [] = []"
    using perm [rule_format, of "[]"] by simp
  show ?thesis
  proof (cases "tracks = [] \<or> ids = []")
    case True
    have i0: "ids = []"
    proof (cases "tracks = []")
      case True
      with ids show ?thesis by (simp add: all_artist_ids_def)
    next
      case False
      with True show ?thesis by simp
    qed
    define df where "df = (if tracks = [] then \<lparr>rows = [], shown_warnings = [], lookups = []\<rparr>
       else \<lparr>rows = map2 (\<lambda>t d. make_row True t d None) tracks ds,
             shown_warnings = [], lookups = []\<rparr>)"
    have r: "add_genres_if_available set_order lookup tracks = Inr df"
      using ds ids i0 by (simp add: add_genres_if_available_def df_def)
    have l: "lookups df = []" and w: "shown_warnings df = []"
      by (simp_all add: df_def)
    have len: "length (rows df) = length tracks"
      using lds by (simp add: df_def)
    have g: "join_genres (batch_index lookup (lookups df)) (artist_ids (tracks ! i))
               = Inr (genre (rows df ! i))" if "i < length tracks" for i
    proof -
      from that have "tracks \<noteq> []" by auto
      then have "genre (rows df ! i) = None"
        using row_genre_None_nth [OF lds that] by (simp add: df_def)
      moreover have "join_genres (batch_index lookup []) (artist_ids (tracks ! i)) = Inr None"
        by (rule join_genres_none) (simp_all add: hash [OF that])
      ultimately show ?thesis by (simp add: l)
    qed
    show ?thesis
      using r ids l w len g i0 nil by (auto simp: batches_Nil batch_warnings_def)
  next
    case False
    then have ne: "tracks \<noteq> []" and ine: "ids \<noteq> []" by simp_all
    let ?bs = "batches 50 (set_order ids)"
    have c: "concat ?bs = set_order ids"
      by (rule concat_batches) simp
    have "mset (set_order ids) = mset ids"
      using perm by blast
    then have s: "set (set_order ids) = set ids"
      by (rule mset_eq_setD)
    have hb: "list_all hashable b" if "b \<in> set ?bs" for b
    proof -
      from that have "set b \<subseteq> set (concat ?bs)" by auto
      with c s all_artist_ids_props(1) [OF ids] show ?thesis
        by (auto simp: list_all_iff)
    qed
    have ok: "list_all (answers_or_rejects lookup) ?bs"
      unfolding list_all_iff using svc hb svc_answers_or_rejects by blast
    have loop: "batch_loop lookup ?bs \<lparr>genres_map = Map.empty, warnings = [], calls = []\<rparr>
                  = Inr \<lparr>genres_map = batch_index lookup ?bs,
                         warnings = batch_warnings lookup ?bs, calls = ?bs\<rparr>"
      using batch_loop_index [OF ok, of "\<lparr>genres_map = Map.empty, warnings = [], calls = []\<rparr>"]
      by simp
    have within: "\<forall>b\<in>set ?bs. \<forall>k g. own_index lookup b k = Some g \<longrightarrow> k \<in> set b \<and> str_list g"
      using svc hb own_index_within by blast
    have typed: "\<forall>k g. batch_index lookup ?bs k = Some g \<longrightarrow> str_list g"
      using batch_index_within [OF within] by blast
    have "\<forall>t\<in>set tracks. \<exists>g. join_genres (batch_index lookup ?bs) (artist_ids t) = Inr g"
    proof
      fix t assume "t \<in> set tracks"
      with tr have "list_all hashable (artist_ids t)"
        by (simp add: list_all_iff track_rec_ok_def)
      with typed show "\<exists>g. join_genres (batch_index lookup ?bs) (artist_ids t) = Inr g"
        by (rule join_genres_typed)
    qed
    from genre_column_ok [OF this] obtain gs where
      gs: "genre_column (batch_index lookup ?bs) tracks = Inr gs" and lgs: "length gs = length tracks"
      and gi: "\<forall>i<length tracks.
                 join_genres (batch_index lookup ?bs) (artist_ids (tracks ! i)) = Inr (gs ! i)"
      by blast
    define df where "df = \<lparr>rows = map2 (\<lambda>t (d, g). make_row False t d g) tracks (zip ds gs),
                           shown_warnings = batch_warnings lookup ?bs, lookups = ?bs\<rparr>"
    have r: "add_genres_if_available set_order lookup tracks = Inr df"
      using ds ids ne ine loop gs by (simp add: add_genres_if_available_def df_def)
    have len: "length (rows df) = length tracks"
      using lds lgs by (simp add: df_def)
    have g: "join_genres (batch_index lookup (lookups df)) (artist_ids (tracks ! i))
               = Inr (genre (rows df ! i))" if "i < length tracks" for i
      using gi that row_genre_nth [OF lds lgs that] by (simp add: df_def)
    show ?thesis
      using r ids len g by (auto simp: df_def)
  qed
qed






section \<open>From the pages of a playlist to the enriched frame\<close>

lemma genre_column_length:
  "genre_column gm ts = Inr gs \<Longrightarrow> length gs = length ts"
proof (induction ts arbitrary: gs)
  case Nil
  then show ?case by simp
next
  case (Cons t ts)
  then show ?case
    by (cases "join_genres gm (artist_ids t)"; cases "genre_column gm ts") auto
qed

lemma rows_kept_same_record:
  "length ds = length ts \<Longrightarrow>
     list_all2 same_record (map2 (\<lambda>t d. make_row True t d None) ts ds) ts"
  by (simp add: list_all2_conv_all_nth same_record_def make_row_def)

lemma rows_dropped_same_record:
  "length ds = length ts \<Longrightarrow> length gs = length ts \<Longrightarrow>
     list_all2 same_record (map2 (\<lambda>t (d, g). make_row False t d g) ts (zip ds gs)) ts"
  by (simp add: list_all2_conv_all_nth same_record_def make_row_def)

lemma enriched_same_record:
  assumes "add_genres_if_available set_order lookup ts = Inr df"
  shows "list_all2 same_record (rows df) ts"
proof (cases "duration_column ts")
  case (Inl e)
  with assms show ?thesis by (simp add: add_genres_if_available_def)
next
  case ds: (Inr ds)
  then have lds: "length ds = length ts" by (rule duration_column_length)
  show ?thesis
  proof (cases "ts = []")
    case True
    with assms ds show ?thesis by (auto simp: add_genres_if_available_def)
  next
    case ne: False
    show ?thesis
    proof (cases "all_artist_ids ts")
      case (Inl e)
      with assms ds ne show ?thesis by (simp add: add_genres_if_available_def)
    next
      case (Inr ids)
      show ?thesis
      proof (cases "ids = []")
        case True
        with assms ds ne Inr have "rows df = map2 (\<lambda>t d. make_row True t d None) ts ds"
          by (auto simp: add_genres_if_available_def)
        with rows_kept_same_record [OF lds] show ?thesis by simp
      next
        case False
        show ?thesis
        proof (cases "batch_loop lookup (batches 50 (set_order ids))
                        \<lparr>genres_map = Map.empty, warnings = [], calls = []\<rparr>")
          case (Inl e)
          with assms ds ne Inr False show ?thesis by (simp add: add_genres_if_available_def)
        next
          case st: (Inr st)
          show ?thesis
          proof (cases "genre_column (genres_map st) ts")
            case (Inl e)
            with assms ds ne Inr False st show ?thesis by (simp add: add_genres_if_available_def)
          next
            case gs: (Inr gs)
            then have lgs: "length gs = length ts" by (rule genre_column_length)
            from assms ds ne Inr False st gs
            have "rows df = map2 (\<lambda>t (d, g). make_row False t d g) ts (zip ds gs)"
              by (auto simp: add_genres_if_available_def)
            with rows_dropped_same_record [OF lds lgs] show ?thesis by simp
          qed
        qed
      qed
    qed
  qed
qed

lemma page_items_iter:
  assumes "page_ok p"
  shows "rbind (py_get p ''items'' (JList [])) py_iter = Inr (page_items p)"
proof -
  from assms have d: "is_dict p" and l: "has_key p ''items'' \<longrightarrow> is_list (field p ''items'')"
    by (simp_all add: page_ok_def)
  show ?thesis
  proof (cases "has_key p ''items''")
    case True
    with l obtain xs where "field p ''items'' = JList xs"
      by (cases "field p ''items''") auto
    with d True show ?thesis by (simp add: py_get_dict page_items_def)
  next
    case False
    with d show ?thesis by (simp add: py_get_dict page_items_def field_not_key)
  qed
qed

lemma issued_hashable: "issued v \<Longrightarrow> hashable v"
  by (cases v) (auto simp: issued_def)

lemma entry_track_record:
  assumes "entry_track_ok t"
  shows "\<exists>r. make_track t = Inr r \<and> track_rec_ok r"
proof -
  from assms have ok: "track_ok t" and sv: "list_all service_artist (artists_of t)"
    and du: "field t ''duration_ms'' = JNull \<or> is_int (field t ''duration_ms'')"
    by (simp_all add: entry_track_ok_def)
  have "list_all hashable (filter truthy (map (\<lambda>a. field a ''id'') (artists_of t)))"
    using sv by (induction "artists_of t") (auto simp: list_all_iff service_artist_def issued_hashable)
  with du show ?thesis
    by (simp add: make_track_ok [OF ok] track_rec_ok_def)
qed

lemma page_tracks_items:
  "list_all item_ok items \<Longrightarrow>
     \<exists>ts. page_tracks items acc = Inr (acc @ ts)
        \<and> map Inr ts = map make_track
             (filter (\<lambda>t. t \<noteq> JNull) (map (\<lambda>e. field e ''track'') items))
        \<and> list_all track_rec_ok ts"
proof (induction items arbitrary: acc)
  case Nil
  show ?case by simp
next
  case (Cons e items)
  from Cons.prems have ok: "item_ok e" and rest: "list_all item_ok items"
    by simp_all
  from ok have d: "is_dict e" by (simp add: item_ok_def)
  show ?case
  proof (cases "field e ''track'' = JNull")
    case True
    from Cons.IH [OF rest, of acc] obtain ts where
      ts: "page_tracks items acc = Inr (acc @ ts)"
        "map Inr ts = map make_track
           (filter (\<lambda>t. t \<noteq> JNull) (map (\<lambda>e. field e ''track'') items))"
        "list_all track_rec_ok ts"
      by blast
    from d True ts(1) have "page_tracks (e # items) acc = Inr (acc @ ts)"
      by (simp add: py_get_dict_null)
    with True ts(2,3) show ?thesis by simp
  next
    case False
    with ok have et: "entry_track_ok (field e ''track'')"
      by (simp add: item_ok_def)
    then have tr: "truthy (field e ''track'')"
      by (simp add: entry_track_ok_def)
    from entry_track_record [OF et] obtain r where
      r: "make_track (field e ''track'') = Inr r" and rk: "track_rec_ok r"
      by blast
    from Cons.IH [OF rest, of "acc @ [r]"] obtain ts where
      ts: "page_tracks items (acc @ [r]) = Inr ((acc @ [r]) @ ts)"
        "map Inr ts = map make_track
           (filter (\<lambda>t. t \<noteq> JNull) (map (\<lambda>e. field e ''track'') items))"
        "list_all track_rec_ok ts"
      by blast
    from d tr r ts(1) have "page_tracks (e # items) acc = Inr (acc @ r # ts)"
      by (simp add: py_get_dict_null)
    moreover from False r ts(2) have "map Inr (r # ts) = map make_track
        (filter (\<lambda>t. t \<noteq> JNull) (map (\<lambda>e. field e ''track'') (e # items)))"
      by simp
    moreover from rk ts(3) have "list_all track_rec_ok (r # ts)"
      by simp
    ultimately show ?thesis by blast
  qed
qed

lemma playlist_tracks_Cons:
  "playlist_tracks (p # ps)
     = filter (\<lambda>t. t \<noteq> JNull) (map (\<lambda>e. field e ''track'') (page_items p)) @ playlist_tracks ps"
  by (simp add: playlist_tracks_def)

lemma fetch_loop_chain:
  "page_chain nxt (p # ps) \<Longrightarrow> list_all page_ok (p # ps) \<Longrightarrow>
     \<exists>ts. fetch_loop nxt p acc = Some (Inr (acc @ ts))
        \<and> map Inr ts = map make_track (playlist_tracks (p # ps))
        \<and> list_all track_rec_ok ts"
proof (induction ps arbitrary: p acc)
  case Nil
  then have pk: "page_ok p" and last: "\<not> truthy (field p ''next'')"
    by simp_all
  from pk have d: "is_dict p" and t: "truthy p" and its: "list_all item_ok (page_items p)"
    by (simp_all add: page_ok_def)
  from page_tracks_items [OF its, of acc] obtain ts where
    ts: "page_tracks (page_items p) acc = Inr (acc @ ts)"
      "map Inr ts = map make_track
         (filter (\<lambda>t. t \<noteq> JNull) (map (\<lambda>e. field e ''track'') (page_items p)))"
      "list_all track_rec_ok ts"
    by blast
  have "fetch_loop nxt p acc = Some (Inr (acc @ ts))"
    by (subst fetch_loop.simps)
       (simp add: t page_items_iter [OF pk] ts(1) py_get_dict_null [OF d] last)
  with ts(2,3) show ?case
    by (simp add: playlist_tracks_Cons playlist_tracks_def)
next
  case (Cons q ps)
  from Cons.prems(1) have more: "truthy (field p ''next'')" and nx: "nxt p = Inr q"
    and ch: "page_chain nxt (q # ps)"
    by simp_all
  from Cons.prems(2) have pk: "page_ok p" and rest: "list_all page_ok (q # ps)"
    by simp_all
  from pk have d: "is_dict p" and t: "truthy p" and its: "list_all item_ok (page_items p)"
    by (simp_all add: page_ok_def)
  from page_tracks_items [OF its, of acc] obtain ts where
    ts: "page_tracks (page_items p) acc = Inr (acc @ ts)"
      "map Inr ts = map make_track
         (filter (\<lambda>t. t \<noteq> JNull) (map (\<lambda>e. field e ''track'') (page_items p)))"
      "list_all track_rec_ok ts"
    by blast
  from Cons.IH [OF ch rest, of "acc @ ts"] obtain us where
    us: "fetch_loop nxt q (acc @ ts) = Some (Inr ((acc @ ts) @ us))"
      "map Inr us = map make_track (playlist_tracks (q # ps))"
      "list_all track_rec_ok us"
    by blast
  have "fetch_loop nxt p acc = fetch_loop nxt q (acc @ ts)"
    by (subst fetch_loop.simps)
       (simp add: t page_items_iter [OF pk] ts(1) py_get_dict_null [OF d] more nx)
  with us(1) have "fetch_loop nxt p acc = Some (Inr (acc @ ts @ us))"
    by simp
  moreover from ts(2) us(2) have "map Inr (ts @ us) = map make_track (playlist_tracks (p # q # ps))"
    by (simp add: playlist_tracks_Cons [of p])
  moreover from ts(3) us(3) have "list_all track_rec_ok (ts @ us)"
    by simp
  ultimately show ?case by blast
qed

text \<open>
  C3. Take a playlist whose pages the service returns one after the other, the last one
  reporting no next page, with entries whose track payload is null (or absent) or a
  track payload as the service types it, and an artist service that answers or rejects
  each batch. Then the Track Fetcher ends and returns one record for each entry whose
  track payload is not null, in the order of the playlist across the pages: the list of
  records is the list of those payloads, each turned into its record, so no page
  boundary duplicates or drops one. The Genre Enricher returns a frame with one row for
  each of these records, in the same order, each row carrying the fields of its record.
\<close>

theorem one_enriched_track_per_entry:
  assumes first: "sp_playlist_tracks sp playlist_id 100 = Inr p"
      and chain: "page_chain (sp_next sp) (p # ps)"
      and pages: "list_all page_ok (p # ps)"
      and perm: "\<forall>xs. mset (set_order xs) = mset xs"
      and svc: "\<forall>b. list_all hashable b \<longrightarrow>
                  answers (sp_artists sp) b \<or> (\<exists>s. sp_artists sp b = Inl (SpotifyException s))"
  shows "\<exists>ts df. fetch_playlist_tracks sp playlist_id = Some (Inr ts)
           \<and> map Inr ts = map make_track (playlist_tracks (p # ps))
           \<and> add_genres_if_available set_order (sp_artists sp) ts = Inr df
           \<and> length (rows df) = length (playlist_tracks (p # ps))
           \<and> list_all2 same_record (rows df) ts"
proof -
  from fetch_loop_chain [OF chain pages, of "[]"] obtain ts where
    fl: "fetch_loop (sp_next sp) p [] = Some (Inr ts)"
    and mp: "map Inr ts = map make_track (playlist_tracks (p # ps))"
    and tr: "list_all track_rec_ok ts"
    by auto
  have f: "fetch_playlist_tracks sp playlist_id = Some (Inr ts)"
    using first fl by (simp add: fetch_playlist_tracks_def)
  from enrich_result [OF tr perm svc] obtain df where
    e: "add_genres_if_available set_order (sp_artists sp) ts = Inr df"
    and len: "length (rows df) = length ts"
    by blast
  have "length (map Inr ts :: (error + track) list) = length (map make_track (playlist_tracks (p # ps)))"
    using mp by simp
  then have n: "length ts = length (playlist_tracks (p # ps))"
    by simp
  from enriched_same_record [OF e] have sr: "list_all2 same_record (rows df) ts" .
  from f mp e len n sr show ?thesis
    by auto
qed

theorem one_enriched_track_per_entry_witness:
  "fetch_playlist_tracks two_pages (JStr ''pl'')
     = Some (Inr [\<lparr>track_id = JStr ''t1'', track_name = JStr ''One'', artist = ''A'',
                    artist_ids = [JStr ''a01''], album = JNull, duration_ms = JInt 180000,
                    popularity = JNull\<rparr>,
                  \<lparr>track_id = JStr ''t2'', track_name = JStr ''Two'', artist = ''B'',
                    artist_ids = [JStr ''a02''], album = JNull, duration_ms = JNull,
                    popularity = JNull\<rparr>])
   \<and> map_sum id (\<lambda>df. map (\<lambda>r. (row_id r, genre r)) (rows df))
        (add_genres_if_available id (sp_artists two_pages)
           [\<lparr>track_id = JStr ''t1'', track_name = JStr ''One'', artist = ''A'',
              artist_ids = [JStr ''a01''], album = JNull, duration_ms = JInt 180000,
              popularity = JNull\<rparr>,
            \<lparr>track_id = JStr ''t2'', track_name = JStr ''Two'', artist = ''B'',
              artist_ids = [JStr ''a02''], album = JNull, duration_ms = JNull,
              popularity = JNull\<rparr>])
     = Inr [(JStr ''t1'', Some ''genre a01''), (JStr ''t2'', Some ''genre a02'')]"
proof -
  let ?r1 = "\<lparr>track_id = JStr ''t1'', track_name = JStr ''One'', artist = ''A'',
              artist_ids = [JStr ''a01''], album = JNull, duration_ms = JInt 180000,
              popularity = JNull\<rparr>"
  let ?r2 = "\<lparr>track_id = JStr ''t2'', track_name = JStr ''Two'', artist = ''B'',
              artist_ids = [JStr ''a02''], album = JNull, duration_ms = JNull,
              popularity = JNull\<rparr>"
  have h1: "sp_playlist_tracks two_pages (JStr ''pl'') 100 = Inr first_page"
    by (simp add: two_pages_def)
  have h2: "page_chain (sp_next two_pages) [first_page, second_page]"
    by (simp add: two_pages_def first_page_def second_page_def)
  have h3: "list_all page_ok [first_page, second_page]"
    by (simp add: first_page_def second_page_def page_ok_def page_items_def item_ok_def
        entry_track_ok_def track_ok_def artists_of_def artist_ok_def service_artist_def issued_def)
  have h4: "\<forall>xs::json list. mset (id xs) = mset xs"
    by simp
  have "\<forall>b. list_all hashable b \<longrightarrow> answers answering b"
    by (auto simp: answers_def answering_def resp_ok_def resp_artists_def list_all_iff
        entry_ok_def entry_within_def genres_value_def str_list_def artist_entry_def)
  then have h5: "\<forall>b. list_all hashable b \<longrightarrow>
          answers (sp_artists two_pages) b \<or> (\<exists>s. sp_artists two_pages b = Inl (SpotifyException s))"
    by (simp add: two_pages_def)
  from one_enriched_track_per_entry [OF h1 h2 h3 h4 h5] obtain ts df where
    f: "fetch_playlist_tracks two_pages (JStr ''pl'') = Some (Inr ts)"
    and mp: "map Inr ts = map make_track (playlist_tracks [first_page, second_page])"
    and e: "add_genres_if_available id (sp_artists two_pages) ts = Inr df"
    and sr: "list_all2 same_record (rows df) ts"
    by blast
  have "map make_track (playlist_tracks [first_page, second_page]) = [Inr ?r1, Inr ?r2]"
    by code_simp
  with mp have ts: "ts = [?r1, ?r2]"
    by (auto simp: map_eq_Cons_conv)
  have g: "map_sum id (\<lambda>df. map (\<lambda>r. (row_id r, genre r)) (rows df))
        (add_genres_if_available id (sp_artists two_pages) [?r1, ?r2])
     = Inr [(JStr ''t1'', Some ''genre a01''), (JStr ''t2'', Some ''genre a02'')]"
    by code_simp
  from f ts g show ?thesis
    by simp
qed

end
